theory Spec2Isabelle
  imports Main
begin

section \<open>HTTP responses\<close>

text \<open>
  The texts of the worker's error events and of its 400 body are fixed literals of the
  source (in Chinese), some followed by the error's own message or the upstream status code.
\<close>

datatype err_text =
    EmptyMessage
  | RequestTimeout
  | StreamError string
  | ApiRequestFailed
  | ApiError nat
  | ServerError string

text \<open>
  What the handlers write to a response body: the worker's server-sent events, each tagged
  with the request id, the JSON body of the worker's 400 answer, and the JSON body of the
  balancer's 500 answer (with the proxy error's message). The \<open>model_info\<close> event carries
  the model's display name and context size; a field whose value is \<open>undefined\<close> is left
  out by \<open>JSON.stringify\<close> (\<open>None\<close>).
\<close>

datatype sse =
    ModelInfo "string option" "string option" string
  | Chunk string string
  | ErrorEv err_text string
  | Done string

datatype out = Sse sse | JsonError err_text | ProxyErrorJson string

text \<open>
  Both the balancer and the worker write to a Node \<open>http.ServerResponse\<close>. The model keeps
  what the handlers read and write: the status code, the headers set so far, the flag
  \<open>headersSent\<close>, the chunks written to the body and the flag set by \<open>end()\<close>.
  Node flushes the (implicit) header block on the first \<open>write\<close>, \<open>writeHead\<close> or
  \<open>end\<close>, and \<open>headersSent\<close> is true from then on. A header value is a string or, as
  the balancer passes one, a number.
\<close>

datatype hval = HStr string | HNum nat

record response =
  statusCode :: nat
  headers :: "(string \<times> hval) list"
  headersSent :: bool
  chunks :: "out list"
  writableEnded :: bool

definition new_response :: response where
  "new_response = \<lparr>statusCode = 200, headers = [], headersSent = False, chunks = [],
     writableEnded = False\<rparr>"

definition setHeader :: "string \<Rightarrow> hval \<Rightarrow> response \<Rightarrow> response" where
  "setHeader name v rs = rs\<lparr>headers := (name, v) # filter (\<lambda>h. fst h \<noteq> name) (headers rs)\<rparr>"

definition getHeader :: "string \<Rightarrow> response \<Rightarrow> hval option" where
  "getHeader name rs = map_of (headers rs) name"

definition res_write :: "out \<Rightarrow> response \<Rightarrow> response" where
  "res_write x rs = rs\<lparr>headersSent := True, chunks := chunks rs @ [x]\<rparr>"

definition res_end :: "response \<Rightarrow> response" where
  "res_end rs = rs\<lparr>headersSent := True, writableEnded := True\<rparr>"

text \<open>
  What a JavaScript call can throw in the code modelled here. Node's \<open>writeHead\<close> throws
  \<open>ERR_HTTP_HEADERS_SENT\<close> once the header block has been sent.
\<close>

datatype js_error = ReferenceError string | TypeError string | HeadersSentError

definition writeHead :: "nat \<Rightarrow> (string \<times> hval) list \<Rightarrow> response \<Rightarrow> js_error + response" where
  "writeHead code hs rs =
     (if headersSent rs then Inl HeadersSentError
      else Inr ((fold (\<lambda>h r. setHeader (fst h) (snd h) r) hs rs)
                  \<lparr>statusCode := code, headersSent := True\<rparr>))"

section \<open>Load balancer (server/simple-balancer.js)\<close>

text \<open>
  The module-level state is the cursor \<open>current\<close> and the counter \<open>requestCount\<close>. The
  worker list is a constant of the source; the handlers below take it as the argument
  \<open>ws\<close> so that a pool of any size can be discussed.
\<close>

definition workers :: "string list" where
  "workers = [''http://localhost:3001'', ''http://localhost:3002'',
              ''http://localhost:3003'', ''http://localhost:3004'']"

record balancer =
  current :: nat
  requestCount :: nat

definition balancer_init :: balancer where
  "balancer_init = \<lparr>current = 0, requestCount = 0\<rparr>"

text \<open>
  One request handed to the proxy: the \<open>target\<close> passed to \<open>proxy.web\<close>
  (\<open>workers[current]\<close>, which is \<open>undefined\<close> out of range) and the response object.
\<close>

record conn =
  target :: "string option"
  res_b :: response

text \<open>
  The balancer process: the module-level state, the calls of \<open>proxy.web\<close> made so far, in
  the order in which they were made and each under the id of its request (ids are labels of
  the model, fresh for every request), and whether the process is still running. Neither
  balancer installs an \<open>uncaughtException\<close> handler, so an exception thrown inside an
  event handler ends the process, and a process that has ended accepts no request.
\<close>

record bal_state =
  globals :: balancer
  conns :: "(nat \<times> conn) list"
  alive :: bool

definition conn_of :: "bal_state \<Rightarrow> nat \<Rightarrow> conn option" where
  "conn_of s rid = map_of (conns s) rid"

definition update_res :: "nat \<Rightarrow> response \<Rightarrow> (nat \<times> conn) list \<Rightarrow> (nat \<times> conn) list" where
  "update_res rid r cs = map (\<lambda>p. if fst p = rid then (fst p, (snd p)\<lparr>res_b := r\<rparr>) else p) cs"

text \<open>
  The request handler, lines 18 to 26: count the request, read the target under the cursor,
  advance the cursor modulo the pool size, hand the request to the proxy with that target.
  (With an \<open>undefined\<close> target the proxy emits an \<open>error\<close> event without a response
  object, which the listener of lines 41 to 56 ignores.)
\<close>

definition select_target :: "string list \<Rightarrow> balancer \<Rightarrow> string option" where
  "select_target ws b = (if current b < length ws then Some (ws ! current b) else None)"

definition advance :: "string list \<Rightarrow> balancer \<Rightarrow> balancer" where
  "advance ws b = b\<lparr>current := (current b + 1) mod length ws, requestCount := requestCount b + 1\<rparr>"

definition on_request :: "string list \<Rightarrow> nat \<Rightarrow> bal_state \<Rightarrow> bal_state" where
  "on_request ws rid s =
     (let target = select_target ws (globals s)
      in s\<lparr>globals := advance ws (globals s),
           conns := conns s @ [(rid, \<lparr>target = target, res_b = new_response\<rparr>)]\<rparr>)"

text \<open>
  The callback given to \<open>proxy.web\<close>, lines 27 to 37: answer 500 with a JSON body. The
  proxy reports the error of a proxied request to this callback and not to the guarded
  \<open>error\<close> listener of lines 41 to 56. The callback does not look at \<open>headersSent\<close>:
  when the worker's response has already been passed on, \<open>writeHead\<close> throws inside the
  callback and the process ends.
\<close>

definition on_proxy_error :: "nat \<Rightarrow> string \<Rightarrow> bal_state \<Rightarrow> bal_state" where
  "on_proxy_error rid msg s =
     (case conn_of s rid of
        None \<Rightarrow> s
      | Some c \<Rightarrow>
          (case writeHead 500 [(''Content-Type'', HStr ''application/json'')] (res_b c) of
             Inl e \<Rightarrow> s\<lparr>alive := False\<rparr>
           | Inr r \<Rightarrow> s\<lparr>conns := update_res rid (res_end (res_write (ProxyErrorJson msg) r))
                                  (conns s)\<rparr>))"

text \<open>
  The \<open>proxyRes\<close> listener, lines 58 to 62: it reads the module-level cursor at the moment
  the worker's response headers arrive. Node's \<open>setHeader\<close> throws as \<open>writeHead\<close>
  does once the header block has been sent.
\<close>

definition on_proxyRes :: "nat \<Rightarrow> bal_state \<Rightarrow> bal_state" where
  "on_proxyRes rid s =
     (case conn_of s rid of
        None \<Rightarrow> s
      | Some c \<Rightarrow>
          if headersSent (res_b c) then s\<lparr>alive := False\<rparr>
          else s\<lparr>conns := update_res rid
                   (setHeader ''X-Worker-Hit'' (HNum (current (globals s)))
                      (setHeader ''X-Load-Balancer'' (HStr ''simple-balancer'') (res_b c)))
                   (conns s)\<rparr>)"

text \<open>
  After the \<open>proxyRes\<close> listeners the proxy pipes the worker's response into the client's:
  the header block is sent with the first bytes.
\<close>

definition on_piped :: "nat \<Rightarrow> bal_state \<Rightarrow> bal_state" where
  "on_piped rid s =
     (case conn_of s rid of
        None \<Rightarrow> s
      | Some c \<Rightarrow> s\<lparr>conns := update_res rid ((res_b c)\<lparr>headersSent := True\<rparr>) (conns s)\<rparr>)"

text \<open>
  The balancer's event loop: requests arrive, and for requests in flight the proxy reports
  the worker's response headers, passes on the worker's response, or reports an error, in
  any interleaving. A process that has ended handles nothing.
\<close>

datatype bal_event = Incoming nat | ProxyRes nat | ProxyPiped nat | ProxyError nat string

fun bal_handle :: "string list \<Rightarrow> bal_state \<Rightarrow> bal_event \<Rightarrow> bal_state" where
  "bal_handle ws s (Incoming rid) = on_request ws rid s"
| "bal_handle ws s (ProxyRes rid) = on_proxyRes rid s"
| "bal_handle ws s (ProxyPiped rid) = on_piped rid s"
| "bal_handle ws s (ProxyError rid msg) = on_proxy_error rid msg s"

definition bal_step :: "string list \<Rightarrow> bal_state \<Rightarrow> bal_event \<Rightarrow> bal_state" where
  "bal_step ws s e = (if alive s then bal_handle ws s e else s)"

definition bal_run :: "string list \<Rightarrow> bal_state \<Rightarrow> bal_event list \<Rightarrow> bal_state" where
  "bal_run ws s es = foldl (bal_step ws) s es"

text \<open>
  The repository's shorter balancer (its lines 7 to 11) hands the request to the proxy with
  the target under the cursor and then advances the cursor. It gives \<open>proxy.web\<close> no
  callback and registers no listener on the proxy: the proxy then emits its errors as an
  \<open>error\<close> event that nobody listens to, which throws, and the process ends. That is
  what happens when a proxied request fails, and also, before the cursor is advanced, when
  the target is \<open>undefined\<close>.
\<close>

definition on_request_short :: "string list \<Rightarrow> nat \<Rightarrow> bal_state \<Rightarrow> bal_state" where
  "on_request_short ws rid s =
     (case select_target ws (globals s) of
        None \<Rightarrow> s\<lparr>alive := False\<rparr>
      | Some t \<Rightarrow>
          s\<lparr>conns := conns s @ [(rid, \<lparr>target = Some t, res_b = new_response\<rparr>)],
            globals := (globals s)\<lparr>current := (current (globals s) + 1) mod length ws\<rparr>\<rparr>)"

fun short_handle :: "string list \<Rightarrow> bal_state \<Rightarrow> bal_event \<Rightarrow> bal_state" where
  "short_handle ws s (Incoming rid) = on_request_short ws rid s"
| "short_handle ws s (ProxyRes rid) = s"
| "short_handle ws s (ProxyPiped rid) = on_piped rid s"
| "short_handle ws s (ProxyError rid msg) = s\<lparr>alive := False\<rparr>"

definition short_step :: "string list \<Rightarrow> bal_state \<Rightarrow> bal_event \<Rightarrow> bal_state" where
  "short_step ws s e = (if alive s then short_handle ws s e else s)"

definition short_run :: "string list \<Rightarrow> bal_state \<Rightarrow> bal_event list \<Rightarrow> bal_state" where
  "short_run ws s es = foldl (short_step ws) s es"

fun is_incoming :: "bal_event \<Rightarrow> bool" where
  "is_incoming (Incoming rid) = True"
| "is_incoming e = False"

definition bal_state_init :: bal_state where
  "bal_state_init = \<lparr>globals = balancer_init, conns = [], alive = True\<rparr>"

text \<open>
  The targets of the calls of \<open>proxy.web\<close>, in the order of the calls; those made since an
  earlier state \<open>s0\<close> of the same process, and their number, which is the number of
  requests the balancer accepted since \<open>s0\<close>.
\<close>

definition dispatched :: "bal_state \<Rightarrow> string option list" where
  "dispatched s = map (\<lambda>p. target (snd p)) (conns s)"

definition dispatched_since :: "bal_state \<Rightarrow> bal_state \<Rightarrow> string option list" where
  "dispatched_since s0 s = drop (length (conns s0)) (dispatched s)"

definition accepted_since :: "bal_state \<Rightarrow> bal_state \<Rightarrow> nat" where
  "accepted_since s0 s = length (conns s) - length (conns s0)"

text \<open>What the client of request \<open>rid\<close> sees: the worker it was proxied to and the header.\<close>

definition served_by :: "bal_state \<Rightarrow> nat \<Rightarrow> string option" where
  "served_by s rid = (case conn_of s rid of None \<Rightarrow> None | Some c \<Rightarrow> target c)"

definition worker_hit :: "bal_state \<Rightarrow> nat \<Rightarrow> hval option" where
  "worker_hit s rid = (case conn_of s rid of None \<Rightarrow> None | Some c \<Rightarrow> getHeader ''X-Worker-Hit'' (res_b c))"

text \<open>The cursor positions of \<open>N\<close> consecutive requests that start at cursor \<open>c\<close>.\<close>

definition sel :: "nat \<Rightarrow> nat \<Rightarrow> nat \<Rightarrow> nat list" where
  "sel c W N = map (\<lambda>k. (c + k) mod W) [0..<N]"

section \<open>Worker: sessions (server/utils/shared.js, server/worker.js)\<close>

text \<open>
  JavaScript's truthiness of a value that is a string or absent: \<open>undefined\<close>, \<open>null\<close> and
  the empty string are falsy.
\<close>

definition truthy :: "string option \<Rightarrow> bool" where
  "truthy v = (case v of None \<Rightarrow> False | Some x \<Rightarrow> x \<noteq> [])"

record file_info =
  file_id :: string
  file_name :: string
  uploadedAt :: nat
  userId_f :: string

record user_session =
  session_id :: string
  workerId :: "string option"
  createdAt :: nat
  lastActivity :: nat
  files :: "file_info list"
  chatHistory :: "string list"
  preferences :: "(string \<times> string) list"

text \<open>
  The constructor of \<open>UserSession\<close>: \<open>now\<close> is the reading of \<open>Date.now()\<close> and \<open>uuid\<close> the
  value \<open>crypto.randomUUID()\<close> would return.
\<close>

definition UserSession_new :: "string option \<Rightarrow> string option \<Rightarrow> nat \<Rightarrow> string \<Rightarrow> user_session" where
  "UserSession_new userId wid now uuid =
     \<lparr>session_id = (if truthy userId then the userId else uuid), workerId = wid,
      createdAt = now, lastActivity = now, files = [], chatHistory = [], preferences = []\<rparr>"

definition updateActivity :: "nat \<Rightarrow> user_session \<Rightarrow> user_session" where
  "updateActivity now sess = sess\<lparr>lastActivity := now\<rparr>"

text \<open>
  The upload directory, as far as sessions touch it: the set of pairs (user id, file id)
  whose path \<open>BASE_UPLOAD_DIR/userId/fileId\<close> exists. \<open>clearFiles\<close> unlinks the path of every
  file of the session and ignores failures.
\<close>

type_synonym disk = "(string \<times> string) set"

definition clearFiles :: "user_session \<Rightarrow> disk \<Rightarrow> user_session \<times> disk" where
  "clearFiles sess d =
     (sess\<lparr>files := []\<rparr>, d - set (map (\<lambda>f. (session_id sess, file_id f)) (files sess)))"

definition cleanupInactive :: "nat \<Rightarrow> nat \<Rightarrow> user_session \<Rightarrow> disk \<Rightarrow> bool \<times> user_session \<times> disk" where
  "cleanupInactive timeout now sess d =
     (if int now - int (lastActivity sess) > int timeout
      then (True, clearFiles sess d) else (False, sess, d))"

record stats =
  activeConnections :: int
  requests :: nat
  errors :: nat

text \<open>
  The worker's module-level state: the \<open>SessionManager\<close>'s map, the counters and the upload
  directory.
\<close>

record worker_state =
  sessions :: "string \<rightharpoonup> user_session"
  workerStats :: stats
  uploads :: disk

definition getSession :: "string \<Rightarrow> worker_state \<Rightarrow> user_session option" where
  "getSession userId st = sessions st userId"

definition setSession :: "string \<Rightarrow> user_session \<Rightarrow> worker_state \<Rightarrow> worker_state" where
  "setSession userId sess st = st\<lparr>sessions := (sessions st)(userId \<mapsto> sess)\<rparr>"

definition deleteSession :: "string \<Rightarrow> worker_state \<Rightarrow> worker_state" where
  "deleteSession userId st = st\<lparr>sessions := (sessions st)(userId := None)\<rparr>"

definition createSession :: "string \<Rightarrow> string \<Rightarrow> nat \<Rightarrow> string \<Rightarrow> worker_state \<Rightarrow> user_session \<times> worker_state" where
  "createSession userId wid now uuid st =
     (let sess = UserSession_new (Some userId) (Some wid) now uuid in (sess, setSession userId sess st))"

subsection \<open>The session middleware, lines 39 to 60 of the worker\<close>

text \<open>
  The middleware is installed with \<open>app.use\<close> before every route, so it runs whatever the
  route is. The request carries the route, the value of its \<open>x-user-id\<close> header (absent, or
  a string that may be empty) and the two fields the middleware adds.
\<close>

datatype route = Health | Models | Files | ChatStream | Chat | Upload | UploadMultiple | Tts | Other string

record request =
  route :: route
  x_user_id :: "string option"
  userId :: "string option"
  session :: "user_session option"

definition session_middleware ::
  "string \<Rightarrow> nat \<Rightarrow> string \<Rightarrow> string \<Rightarrow> request \<Rightarrow> response \<Rightarrow> worker_state
     \<Rightarrow> request \<times> response \<times> worker_state" where
  "session_middleware wid now uuid uuid' req rs st =
     (let st1 = st\<lparr>workerStats := (workerStats st)\<lparr>requests := requests (workerStats st) + 1,
                      activeConnections := activeConnections (workerStats st) + 1\<rparr>\<rparr>;
          generated = \<not> truthy (x_user_id req);
          uid = (if generated then uuid else the (x_user_id req));
          rs1 = (if generated then setHeader ''X-User-ID'' (HStr uid) rs else rs);
          (sess, st2) = (case getSession uid st1 of
                           Some sess \<Rightarrow> (sess, st1)
                         | None \<Rightarrow> createSession uid wid now uuid' st1)
      in (req\<lparr>userId := Some uid, session := Some sess\<rparr>, rs1, st2))"

subsection \<open>The idle sweep, lines 1273 to 1286 of the worker\<close>

text \<open>
  The sweep reads its sessions from \<open>redisStore.getAllSessions()\<close>. The worker module
  declares and imports no binding named \<open>redisStore\<close>, so evaluating the identifier throws
  a \<open>ReferenceError\<close>, which the surrounding \<open>try\<close>/\<open>catch\<close> logs.
\<close>

record session_data =
  sd_id :: "string option"
  sd_workerId :: "string option"

definition redisStore_getAllSessions :: "js_error + session_data list" where
  "redisStore_getAllSessions = Inl (ReferenceError ''redisStore'')"

text \<open>
  The loop body: build a fresh \<open>UserSession\<close> from the stored data, ask it whether it is
  idle (with the default timeout of 3600000 ms) and, if so, delete the session. The
  constructor reads the clock (\<open>now\<close>) and \<open>cleanupInactive\<close> reads it again (\<open>later\<close>).
\<close>

fun sweep_loop :: "nat \<Rightarrow> nat \<Rightarrow> string \<Rightarrow> session_data list \<Rightarrow> worker_state \<Rightarrow> worker_state" where
  "sweep_loop now later uuid [] st = st"
| "sweep_loop now later uuid (sd # sds) st =
     (let sess = UserSession_new (sd_id sd) (sd_workerId sd) now uuid;
          (idle, sess', d') = cleanupInactive 3600000 later sess (uploads st)
      in sweep_loop now later uuid sds
           (if idle then deleteSession (session_id sess) (st\<lparr>uploads := d'\<rparr>) else st))"

definition sweep_tick :: "nat \<Rightarrow> nat \<Rightarrow> string \<Rightarrow> worker_state \<Rightarrow> worker_state" where
  "sweep_tick now later uuid st =
     (case redisStore_getAllSessions of
        Inl e \<Rightarrow> st
      | Inr sds \<Rightarrow> sweep_loop now later uuid sds st)"

section \<open>Worker: the chat stream, lines 503 to 994 of the worker\<close>

subsection \<open>Strings\<close>

text \<open>
  \<open>includes\<close> (here \<open>includes_str\<close>), \<open>startsWith\<close>, \<open>endsWith\<close>, \<open>split('\n')\<close> and
  \<open>trim\<close> of JavaScript strings, on the UTF-8 bytes of the text. \<open>split_nl\<close> never
  returns the empty list, as \<open>split\<close> does not.
\<close>

fun includes_str :: "string \<Rightarrow> string \<Rightarrow> bool" where
  "includes_str [] sub = (sub = [])"
| "includes_str (c # cs) sub = (take (length sub) (c # cs) = sub \<or> includes_str cs sub)"

definition startsWith :: "string \<Rightarrow> string \<Rightarrow> bool" where
  "startsWith str p = (take (length p) str = p)"

fun split_nl :: "string \<Rightarrow> string list" where
  "split_nl [] = [[]]"
| "split_nl (c # cs) =
     (if c = CHR 0x0A then [] # split_nl cs
      else (case split_nl cs of [] \<Rightarrow> [[c]] | l # ls \<Rightarrow> (c # l) # ls))"

definition endsWith :: "string \<Rightarrow> string \<Rightarrow> bool" where
  "endsWith str p = (length p \<le> length str \<and> drop (length str - length p) str = p)"

text \<open>
  \<open>trim\<close> strips the white space and the line terminators of ECMAScript from both ends:
  U+0009 to U+000D, U+0020, U+00A0, U+1680, U+2000 to U+200A, U+2028, U+2029, U+202F,
  U+205F, U+3000 and U+FEFF, here in their UTF-8 encodings. Every step removes at least
  one byte, so the length of the string is fuel enough.
\<close>

definition white_space :: "string list" where
  "white_space =
     [[CHR 0x09], [CHR 0x0A], [CHR 0x0B], [CHR 0x0C], [CHR 0x0D], [CHR 0x20],
      [CHR 0xC2, CHR 0xA0], [CHR 0xE1, CHR 0x9A, CHR 0x80],
      [CHR 0xE2, CHR 0x80, CHR 0x80], [CHR 0xE2, CHR 0x80, CHR 0x81],
      [CHR 0xE2, CHR 0x80, CHR 0x82], [CHR 0xE2, CHR 0x80, CHR 0x83],
      [CHR 0xE2, CHR 0x80, CHR 0x84], [CHR 0xE2, CHR 0x80, CHR 0x85],
      [CHR 0xE2, CHR 0x80, CHR 0x86], [CHR 0xE2, CHR 0x80, CHR 0x87],
      [CHR 0xE2, CHR 0x80, CHR 0x88], [CHR 0xE2, CHR 0x80, CHR 0x89],
      [CHR 0xE2, CHR 0x80, CHR 0x8A], [CHR 0xE2, CHR 0x80, CHR 0xA8],
      [CHR 0xE2, CHR 0x80, CHR 0xA9], [CHR 0xE2, CHR 0x80, CHR 0xAF],
      [CHR 0xE2, CHR 0x81, CHR 0x9F], [CHR 0xE3, CHR 0x80, CHR 0x80],
      [CHR 0xEF, CHR 0xBB, CHR 0xBF]]"

fun trim_start :: "nat \<Rightarrow> string \<Rightarrow> string" where
  "trim_start 0 str = str"
| "trim_start (Suc n) str =
     (case find (startsWith str) white_space of
        None \<Rightarrow> str
      | Some w \<Rightarrow> trim_start n (drop (length w) str))"

fun trim_end :: "nat \<Rightarrow> string \<Rightarrow> string" where
  "trim_end 0 str = str"
| "trim_end (Suc n) str =
     (case find (endsWith str) white_space of
        None \<Rightarrow> str
      | Some w \<Rightarrow> trim_end n (take (length str - length w) str))"

definition trim :: "string \<Rightarrow> string" where
  "trim str = trim_end (length str) (trim_start (length str) str)"

subsection \<open>Requests, events and the per-request state\<close>

record file_ref =
  ref_name :: string
  ref_type :: "string option"

text \<open>
  The request body after destructuring with its defaults: \<open>message\<close> may be absent, \<open>files\<close>
  is an array or \<open>null\<close> (\<open>None\<close>), \<open>model\<close> and \<open>max_tokens\<close> have their defaults applied.
\<close>

record chat_body =
  message :: "string option"
  model :: string
  max_tokens :: int
  files_b :: "file_ref list option"

datatype part = TextPart string | ImageUrlPart string

text \<open>The system message carries the constant \<open>SYSTEM_PROMPT\<close>.\<close>

datatype chat_msg = SystemMsg | UserMsg "part list"

record request_data =
  rd_model :: string
  rd_messages :: "chat_msg list"
  rd_max_tokens :: int

fun is_chunk :: "out \<Rightarrow> bool" where
  "is_chunk (Sse (Chunk c r)) = True"
| "is_chunk x = False"

datatype timer = Pending | Cleared | Fired

record upstream =
  destroyed :: bool

text \<open>
  Where the asynchronous handler stands: before its validation (it awaits the session
  store and the reading of the files), awaiting the upstream response after \<open>axios\<close> was
  called, with the upstream stream's listeners installed, or returned.
\<close>

datatype phase = Started | AwaitingUpstream | Streaming | Finished

record chat =
  isClientConnected :: bool
  axiosResponse :: "upstream option"
  timeoutId :: "timer option"
  requestId :: string
  req_body :: chat_body
  res :: "response"
  buffer :: string
  upstreamCalls :: "request_data list"
  errorCount :: nat
  phase :: phase

definition chat_init :: "chat_body \<Rightarrow> string \<Rightarrow> response \<Rightarrow> chat" where
  "chat_init b rid rs =
     \<lparr>isClientConnected = True, axiosResponse = None, timeoutId = None, requestId = rid,
      req_body = b, res = rs, buffer = [], upstreamCalls = [], errorCount = 0, phase = Started\<rparr>"

text \<open>
  The events of one request: the \<open>close\<close> listener of the request runs; the client's
  connection closes without any listener of the handler being called; the handler gets
  past its first awaits (with the content parts the loop over the files produced);
  \<open>axios\<close> resolves or rejects (with the upstream status, if there was a response); the
  upstream stream emits \<open>data\<close>, \<open>end\<close> or \<open>error\<close>; the 120000 ms timer fires.

  Which of the first two a disconnect is depends on the Node release. Before Node 16 the
  request emits \<open>close\<close> when the connection closes, and the listener runs then
  (\<open>Close\<close>). From Node 16 on the request emits \<open>close\<close> as soon as its body has been
  read, which the JSON body parser has done before the handler is called and attaches its
  listener at line 513: the event is over by then, the listener never runs, and a
  disconnect reaches the handler as nothing at all (\<open>Disconnect\<close>).
\<close>

datatype chat_event =
    Close
  | Disconnect
  | Proceed "part list"
  | AxiosResolved
  | AxiosRejected "nat option"
  | UpData string
  | UpEnd
  | UpError string
  | TimeoutFired

subsection \<open>The handlers\<close>

text \<open>
  \<open>getCurrentModelCapabilities\<close>: the fields \<open>name\<close> and \<open>context\<close> of
  \<open>capabilities[modelId]\<close>, or of the default object when that value is falsy. The table
  is an object literal, so the lookup also finds what the table inherits from
  \<open>Object.prototype\<close>: its methods, which are functions (truthy; their \<open>name\<close> is the
  function's name and they have no \<open>context\<close>), and \<open>__proto__\<close>, which is
  \<open>Object.prototype\<close> itself (truthy, with neither field). An id found nowhere is shown
  under its own name with the context text of the default object (two Chinese characters,
  here in UTF-8).
\<close>

definition object_prototype_methods :: "string list" where
  "object_prototype_methods =
     [''__defineGetter__'', ''__defineSetter__'', ''hasOwnProperty'', ''__lookupGetter__'',
      ''__lookupSetter__'', ''isPrototypeOf'', ''propertyIsEnumerable'', ''toString'',
      ''valueOf'', ''toLocaleString'']"

definition unknown_context :: string where
  "unknown_context = map char_of [230, 156, 170, 231, 159, 165 :: nat]"

definition getCurrentModelCapabilities :: "string \<Rightarrow> string option \<times> string option" where
  "getCurrentModelCapabilities modelId =
     (if modelId = ''deepseek-ai/DeepSeek-V3.2'' then (Some ''DeepSeek-V3.2'', Some ''128K'')
      else if modelId = ''deepseek-ai/DeepSeek-OCR'' then (Some ''DeepSeek-OCR'', Some ''128K'')
      else if modelId = ''Qwen/Qwen3-VL-32B-Instruct'' then (Some ''Qwen3-VL-32B'', Some ''32K'')
      else if modelId = ''Qwen/Qwen2.5-VL-72B-Instruct'' then (Some ''Qwen2.5-VL-72B'', Some ''8K'')
      else if modelId = ''Qwen/Qwen2.5-72B-Instruct'' then (Some ''Qwen2.5-72B'', Some ''32K'')
      else if modelId = ''constructor'' then (Some ''Object'', None)
      else if modelId \<in> set object_prototype_methods then (Some modelId, None)
      else if modelId = ''__proto__'' then (None, None)
      else (Some modelId, Some unknown_context))"

definition adjustedMaxTokens :: "string \<Rightarrow> int \<Rightarrow> int" where
  "adjustedMaxTokens m mt =
     (if includes_str m ''Qwen2.5-VL-72B'' then min mt 8192
      else if includes_str m ''DeepSeek-V3.2'' \<or> includes_str m ''DeepSeek-OCR'' then min mt 32768
      else if includes_str m ''Qwen3-VL-32B'' then min mt 32768
      else mt)"

text \<open>\<open>res.status(code).json(body)\<close> of Express: status, content type, body, end.\<close>

definition json_reply :: "nat \<Rightarrow> out \<Rightarrow> response \<Rightarrow> response" where
  "json_reply code b rs =
     res_end (res_write b ((setHeader ''Content-Type'' (HStr ''application/json; charset=utf-8'') rs)
       \<lparr>statusCode := code\<rparr>))"

definition clearTimeout :: "timer \<Rightarrow> timer" where
  "clearTimeout t = (case t of Pending \<Rightarrow> Cleared | Cleared \<Rightarrow> Cleared | Fired \<Rightarrow> Fired)"

text \<open>\<open>if (timeoutId) clearTimeout(timeoutId)\<close>\<close>

definition clear_timer :: "chat \<Rightarrow> chat" where
  "clear_timer s = s\<lparr>timeoutId := map_option clearTimeout (timeoutId s)\<rparr>"

text \<open>\<open>if (axiosResponse && axiosResponse.destroy) axiosResponse.destroy()\<close>\<close>

definition destroy_upstream :: "chat \<Rightarrow> chat" where
  "destroy_upstream s = s\<lparr>axiosResponse := map_option (\<lambda>u. u\<lparr>destroyed := True\<rparr>) (axiosResponse s)\<rparr>"

definition write_event :: "sse \<Rightarrow> chat \<Rightarrow> chat" where
  "write_event e s = s\<lparr>res := res_write (Sse e) (res s)\<rparr>"

text \<open>
  The block shared by the timeout, the stream's \<open>error\<close> listener and the \<open>catch\<close> around
  the upstream call: under the guard \<open>isClientConnected && !res.headersSent\<close>, write the
  error event, write the done event, end the response.
\<close>

definition emit_error_done :: "err_text \<Rightarrow> chat \<Rightarrow> chat" where
  "emit_error_done txt s =
     (if isClientConnected s \<and> \<not> headersSent (res s)
      then (let s1 = write_event (ErrorEv txt (requestId s)) s;
                s2 = write_event (Done (requestId s)) s1
            in s2\<lparr>res := res_end (res s2)\<rparr>)
      else s)"

text \<open>
  The \<open>close\<close> listener of the request, lines 513 to 526: mark the client as gone,
  destroy the upstream stream if the handler holds one, clear the timer if it is set.
\<close>

definition on_close :: "chat \<Rightarrow> chat" where
  "on_close s = clear_timer (destroy_upstream (s\<lparr>isClientConnected := False\<rparr>))"

text \<open>The timer's callback, lines 766 to 790.\<close>

definition on_timeout :: "chat \<Rightarrow> chat" where
  "on_timeout s = destroy_upstream (emit_error_done RequestTimeout s)"

text \<open>The \<open>catch\<close> around the upstream call, lines 935 to 966.\<close>

definition on_api_error :: "nat option \<Rightarrow> chat \<Rightarrow> chat" where
  "on_api_error status s =
     emit_error_done (case status of None \<Rightarrow> ApiRequestFailed | Some c \<Rightarrow> ApiError c)
       (clear_timer (s\<lparr>errorCount := errorCount s + 1\<rparr>))"

text \<open>The stream's \<open>error\<close> listener, lines 908 to 933.\<close>

definition on_stream_error :: "string \<Rightarrow> chat \<Rightarrow> chat" where
  "on_stream_error m s =
     emit_error_done (StreamError m) (clear_timer (s\<lparr>errorCount := errorCount s + 1\<rparr>))"

text \<open>The stream's \<open>end\<close> listener, lines 886 to 906.\<close>

definition on_end :: "chat \<Rightarrow> chat" where
  "on_end s =
     (let s1 = clear_timer s
      in if isClientConnected s1 \<and> \<not> headersSent (res s1)
         then (let s2 = write_event (Done (requestId s1)) s1 in s2\<lparr>res := res_end (res s2)\<rparr>)
         else s1)"

text \<open>
  The stream's \<open>data\<close> listener, lines 836 to 884. \<open>parse\<close> stands for \<open>JSON.parse\<close>
  followed by the test of \<open>choices[0].delta.content\<close>: it gives the content fragment, or
  \<open>None\<close> when the line does not parse or has no content.
\<close>

definition handle_line :: "(string \<Rightarrow> string option) \<Rightarrow> string \<Rightarrow> chat \<Rightarrow> chat" where
  "handle_line parse line s =
     (if trim line = [] then s
      else if startsWith line ''data: '' then
        (let d = drop 6 line
         in if trim d = ''[DONE]''
            then (if isClientConnected s then write_event (Done (requestId s)) s else s)
            else (case parse d of
                    None \<Rightarrow> s
                  | Some content \<Rightarrow>
                      if isClientConnected s then write_event (Chunk content (requestId s)) s else s))
      else s)"

definition on_data :: "(string \<Rightarrow> string option) \<Rightarrow> string \<Rightarrow> chat \<Rightarrow> chat" where
  "on_data parse chunk s =
     (if \<not> isClientConnected s then destroy_upstream s
      else (let ls = split_nl (buffer s @ chunk)
            in fold (handle_line parse) (butlast ls) (s\<lparr>buffer := last ls\<rparr>)))"

text \<open>
  The handler from its validation on, lines 553 to 832. \<open>parts\<close> are the content parts the
  loop over the files pushed (it reads the disk and the document parsers; every file
  makes it push a part, so its two flags add nothing to the test for an empty content).
  The validation answers 400 when the message is falsy and there are no files; otherwise the handler sets
  the event-stream headers, arms the timer, returns if the client is gone, and else writes
  the \<open>model_info\<close> event and calls the upstream API.
\<close>

definition has_files :: "chat_body \<Rightarrow> bool" where
  "has_files b = (case files_b b of None \<Rightarrow> False | Some fs \<Rightarrow> fs \<noteq> [])"

definition analyze_prompt :: string where
  "analyze_prompt = map char_of [232, 175, 183, 229, 136, 134, 230, 158, 144, 232, 191, 153, 228,
     186, 155, 230, 150, 135, 228, 187, 182, 229, 134, 133, 229, 174, 185 :: nat]"

definition build_messages :: "chat_body \<Rightarrow> part list \<Rightarrow> chat_msg list" where
  "build_messages b parts =
     (if has_files b
      then (let uc = parts @ (if truthy (message b) then [TextPart (the (message b))] else [])
            in [SystemMsg, UserMsg (if uc = [] then [TextPart analyze_prompt] else uc)])
      else [SystemMsg, UserMsg [TextPart (case message b of None \<Rightarrow> [] | Some m \<Rightarrow> m)]])"

definition sse_headers :: "response \<Rightarrow> response" where
  "sse_headers rs =
     setHeader ''X-Accel-Buffering'' (HStr ''no'')
      (setHeader ''Access-Control-Allow-Origin'' (HStr ''*'')
        (setHeader ''Connection'' (HStr ''keep-alive'')
          (setHeader ''Cache-Control'' (HStr ''no-cache'')
            (setHeader ''Content-Type'' (HStr ''text/event-stream'') rs))))"

definition on_proceed :: "part list \<Rightarrow> chat \<Rightarrow> chat" where
  "on_proceed parts s =
     (let b = req_body s; messages = build_messages b parts
      in if \<not> truthy (message b) \<and> \<not> has_files b
         then s\<lparr>res := json_reply 400 (JsonError EmptyMessage) (res s), phase := Finished\<rparr>
         else (let s1 = s\<lparr>res := sse_headers (res s), timeoutId := Some Pending\<rparr>
               in if \<not> isClientConnected s1 then (clear_timer s1)\<lparr>phase := Finished\<rparr>
                  else (let cap = getCurrentModelCapabilities (model b);
                            s2 = (if isClientConnected s1
                                  then write_event (ModelInfo (fst cap) (snd cap) (requestId s1)) s1
                                  else s1)
                        in s2\<lparr>upstreamCalls := upstreamCalls s2 @
                                [\<lparr>rd_model = model b, rd_messages = messages,
                                  rd_max_tokens = adjustedMaxTokens (model b) (max_tokens b)\<rparr>],
                              phase := AwaitingUpstream\<rparr>)))"

text \<open>
  One event. Listeners that are not installed yet do nothing: the stream's listeners exist
  once \<open>axios\<close> has resolved, and a timer fires only while it is pending. A disconnect
  that calls no listener changes nothing the handler reads: \<open>res.write\<close> on a response
  whose connection is closed does not throw, and \<open>res.headersSent\<close> stays as it is.
\<close>

fun chat_step :: "(string \<Rightarrow> string option) \<Rightarrow> chat \<Rightarrow> chat_event \<Rightarrow> chat" where
  "chat_step parse s Close = on_close s"
| "chat_step parse s Disconnect = s"
| "chat_step parse s (Proceed parts) = (if phase s = Started then on_proceed parts s else s)"
| "chat_step parse s AxiosResolved =
     (if phase s = AwaitingUpstream
      then s\<lparr>axiosResponse := Some \<lparr>destroyed = False\<rparr>, buffer := [], phase := Streaming\<rparr>
      else s)"
| "chat_step parse s (AxiosRejected status) =
     (if phase s = AwaitingUpstream then (on_api_error status s)\<lparr>phase := Finished\<rparr> else s)"
| "chat_step parse s (UpData chunk) = (if phase s = Streaming then on_data parse chunk s else s)"
| "chat_step parse s UpEnd = (if phase s = Streaming then on_end s else s)"
| "chat_step parse s (UpError m) = (if phase s = Streaming then on_stream_error m s else s)"
| "chat_step parse s TimeoutFired =
     (if timeoutId s = Some Pending then on_timeout (s\<lparr>timeoutId := Some Fired\<rparr>) else s)"

fun chat_run :: "(string \<Rightarrow> string option) \<Rightarrow> chat \<Rightarrow> chat_event list \<Rightarrow> chat" where
  "chat_run parse s [] = s"
| "chat_run parse s (e # es) = chat_run parse (chat_step parse s e) es"

subsection \<open>Predicates and sample inputs used in the statements below\<close>

text \<open>The client is gone and no timer is pending.\<close>

definition gone :: "chat \<Rightarrow> bool" where
  "gone s = (\<not> isClientConnected s \<and> timeoutId s \<noteq> Some Pending)"

text \<open>
  The handler has not reached its validation yet, and: it has answered 400 and returned.
\<close>

definition awaiting_validation :: "chat_body \<Rightarrow> response \<Rightarrow> chat \<Rightarrow> bool" where
  "awaiting_validation b rs s =
     (phase s = Started \<and> req_body s = b \<and> res s = rs \<and> upstreamCalls s = [] \<and> timeoutId s = None)"

definition rejected :: "response \<Rightarrow> chat \<Rightarrow> bool" where
  "rejected rs s =
     (phase s = Finished \<and> res s = json_reply 400 (JsonError EmptyMessage) rs
      \<and> upstreamCalls s = [] \<and> timeoutId s = None)"

definition hello_body :: chat_body where
  "hello_body = \<lparr>message = Some ''hi'', model = ''Qwen/Qwen2.5-72B-Instruct'', max_tokens = 4000,
     files_b = Some []\<rparr>"

definition empty_body :: chat_body where
  "empty_body = \<lparr>message = Some [], model = ''Qwen/Qwen2.5-72B-Instruct'', max_tokens = 4000,
     files_b = Some []\<rparr>"

text \<open>
  The state of a request right after the handler has called the upstream API: the client
  connected, the timer armed, the \<open>model_info\<close> event written.
\<close>

definition pending_call :: "chat_body \<Rightarrow> chat" where
  "pending_call b =
     \<lparr>isClientConnected = True, axiosResponse = None, timeoutId = Some Pending,
      requestId = ''r1'', req_body = b,
      res = res_write (Sse (ModelInfo (fst (getCurrentModelCapabilities (model b)))
              (snd (getCurrentModelCapabilities (model b))) ''r1'')) (sse_headers new_response),
      buffer = [],
      upstreamCalls = [\<lparr>rd_model = model b, rd_messages = build_messages b [],
                        rd_max_tokens = adjustedMaxTokens (model b) (max_tokens b)\<rparr>],
      errorCount = 0, phase = AwaitingUpstream\<rparr>"

text \<open>A stand-in for the JSON parser on two sample lines.\<close>

definition sample_parse :: "string \<Rightarrow> string option" where
  "sample_parse d = (if d = ''A'' then Some ''Hello'' else if d = ''B'' then Some ''world'' else None)"

definition idle_session :: user_session where
  "idle_session = \<lparr>session_id = ''u1'', workerId = Some ''1'', createdAt = 0, lastActivity = 0,
     files = [\<lparr>file_id = ''f1'', file_name = ''a.pdf'', uploadedAt = 0, userId_f = ''u1''\<rparr>],
     chatHistory = [], preferences = []\<rparr>"

definition idle_state :: worker_state where
  "idle_state = \<lparr>sessions = [''u1'' \<mapsto> idle_session],
     workerStats = \<lparr>activeConnections = 0, requests = 1, errors = 0\<rparr>,
     uploads = {(''u1'', ''f1'')}\<rparr>"

definition fresh_worker :: worker_state where
  "fresh_worker = \<lparr>sessions = Map.empty,
     workerStats = \<lparr>activeConnections = 0, requests = 0, errors = 0\<rparr>, uploads = {}\<rparr>"

section \<open>Process supervisor (server/process-manager.js)\<close>

text \<open>
  A JavaScript \<open>Map\<close> iterated in insertion order: \<open>set\<close> keeps the place of a key that
  is present and appends a new one, \<open>delete\<close> removes the key, \<open>get\<close> finds it.
\<close>

fun map_set :: "'k \<Rightarrow> 'v \<Rightarrow> ('k \<times> 'v) list \<Rightarrow> ('k \<times> 'v) list" where
  "map_set k v [] = [(k, v)]"
| "map_set k v ((k', v') # ps) = (if k' = k then (k, v) # ps else (k', v') # map_set k v ps)"

definition map_delete :: "'k \<Rightarrow> ('k \<times> 'v) list \<Rightarrow> ('k \<times> 'v) list" where
  "map_delete k ps = filter (\<lambda>p. fst p \<noteq> k) ps"

definition map_get :: "'k \<Rightarrow> ('k \<times> 'v) list \<Rightarrow> 'v option" where
  "map_get k ps = map_of ps k"

text \<open>
  A forked process: the ordinal and the port it was given in its environment (the source
  passes both as decimal strings), and whether it has exited.
\<close>

record proc =
  env_WORKER_ID :: nat
  env_WORKER_PORT :: int
  dead :: bool

text \<open>The supervisor's entry for a worker; the process handle is stood for by its pid.\<close>

record worker_info =
  pid :: nat
  startedAt :: nat
  restarts :: nat

text \<open>
  The supervisor's state: the configured base port, the map from worker id to entry, the
  ids that have a stats report, and the processes forked so far, by pid.
\<close>

record pm_state =
  basePort :: int
  pm_workers :: "(nat \<times> worker_info) list"
  pm_stats :: "nat list"
  procs :: "nat \<rightharpoonup> proc"

text \<open>
  \<open>forkWorker(id)\<close>, lines 59 to 79: fork a process with the id and the port
  \<open>basePort + id - 1\<close> in its environment and register it with a restart count of 0.
  \<open>newpid\<close> is the pid the operating system gives the new process, \<open>now\<close> the clock.
\<close>

definition forkWorker :: "nat \<Rightarrow> nat \<Rightarrow> nat \<Rightarrow> pm_state \<Rightarrow> pm_state" where
  "forkWorker newpid now wid st =
     st\<lparr>procs := (procs st)(newpid \<mapsto>
            \<lparr>env_WORKER_ID = wid, env_WORKER_PORT = basePort st + int wid - 1, dead = False\<rparr>),
        pm_workers := map_set wid \<lparr>pid = newpid, startedAt = now, restarts = 0\<rparr> (pm_workers st)\<rparr>"

text \<open>\<open>setupMaster\<close> forks the workers 1 to \<open>workerCount\<close>; \<open>pids\<close> are their pids in order.\<close>

fun setupMaster :: "nat \<Rightarrow> nat \<Rightarrow> nat list \<Rightarrow> pm_state \<Rightarrow> pm_state" where
  "setupMaster now wid [] st = st"
| "setupMaster now wid (p # ps) st = setupMaster now (wid + 1) ps (forkWorker p now wid st)"

definition pm_init :: "int \<Rightarrow> pm_state" where
  "pm_init bp = \<lparr>basePort = bp, pm_workers = [], pm_stats = [], procs = Map.empty\<rparr>"

definition findWorkerIdByPid :: "nat \<Rightarrow> pm_state \<Rightarrow> nat option" where
  "findWorkerIdByPid p st =
     (case filter (\<lambda>e. pid (snd e) = p) (pm_workers st) of [] \<Rightarrow> None | e # es \<Rightarrow> Some (fst e))"

text \<open>
  A process exits: the operating system's part (the process is dead) and then the
  supervisor's \<open>exit\<close> listener, lines 35 to 46, which looks the worker up by pid, drops its
  entry and its stats and forks a replacement under the same id. An id of 0 would be falsy.
\<close>

definition process_exited :: "nat \<Rightarrow> pm_state \<Rightarrow> pm_state" where
  "process_exited p st =
     st\<lparr>procs := (case procs st p of None \<Rightarrow> procs st
                   | Some pr \<Rightarrow> (procs st)(p \<mapsto> pr\<lparr>dead := True\<rparr>))\<rparr>"

definition on_cluster_exit :: "nat \<Rightarrow> nat \<Rightarrow> nat \<Rightarrow> pm_state \<Rightarrow> pm_state" where
  "on_cluster_exit p newpid now st =
     (case findWorkerIdByPid p st of
        None \<Rightarrow> st
      | Some wid \<Rightarrow>
          if wid = 0 then st
          else forkWorker newpid now wid
                 (st\<lparr>pm_workers := map_delete wid (pm_workers st),
                     pm_stats := filter (\<lambda>i. i \<noteq> wid) (pm_stats st)\<rparr>))"

definition worker_exit :: "nat \<Rightarrow> nat \<Rightarrow> nat \<Rightarrow> pm_state \<Rightarrow> pm_state" where
  "worker_exit p newpid now st = on_cluster_exit p newpid now (process_exited p st)"

text \<open>
  \<open>restartWorker(id)\<close>, lines 100 to 124, in its three steps. It reads the entry (and
  returns if there is none) and sends the shutdown message; it waits until the worker
  exits or 10000 ms have passed, killing the worker in the second case if it is not dead;
  it forks again and sets the new entry's restart count to the old entry's count plus one.
\<close>

definition restart_begin :: "nat \<Rightarrow> pm_state \<Rightarrow> worker_info option" where
  "restart_begin wid st = map_get wid (pm_workers st)"

definition grace_expired :: "worker_info \<Rightarrow> pm_state \<Rightarrow> pm_state" where
  "grace_expired info st =
     (case procs st (pid info) of
        None \<Rightarrow> st
      | Some pr \<Rightarrow> if \<not> dead pr then process_exited (pid info) st else st)"

definition restart_finish :: "worker_info \<Rightarrow> nat \<Rightarrow> nat \<Rightarrow> nat \<Rightarrow> pm_state \<Rightarrow> pm_state" where
  "restart_finish info newpid now wid st =
     (let st1 = forkWorker newpid now wid st
      in case map_get wid (pm_workers st1) of
           None \<Rightarrow> st1
         | Some e \<Rightarrow> st1\<lparr>pm_workers := map_set wid (e\<lparr>restarts := restarts info + 1\<rparr>) (pm_workers st1)\<rparr>)"

text \<open>
  The two courses of a graceful restart. If the worker does not exit in time it is killed
  and replaced; its later \<open>exit\<close> event finds no entry with its pid. If it exits in time,
  the \<open>exit\<close> listener above runs first (Node emits the worker's and the cluster's \<open>exit\<close>
  in the same turn) and forks a replacement, and the continuation forks another.
\<close>

definition restart_forced :: "nat \<Rightarrow> nat \<Rightarrow> nat \<Rightarrow> nat \<Rightarrow> pm_state \<Rightarrow> pm_state" where
  "restart_forced wid newpid latepid now st =
     (case restart_begin wid st of
        None \<Rightarrow> st
      | Some info \<Rightarrow>
          on_cluster_exit (pid info) latepid now
            (restart_finish info newpid now wid (grace_expired info st)))"

definition restart_voluntary :: "nat \<Rightarrow> nat \<Rightarrow> nat \<Rightarrow> nat \<Rightarrow> pm_state \<Rightarrow> pm_state" where
  "restart_voluntary wid newpid1 newpid2 now st =
     (case restart_begin wid st of
        None \<Rightarrow> st
      | Some info \<Rightarrow> restart_finish info newpid2 now wid (worker_exit (pid info) newpid1 now st))"

text \<open>What the supervisor knows of a worker: its process's ordinal and port, its restarts.\<close>

definition worker_view :: "nat \<Rightarrow> pm_state \<Rightarrow> (nat \<times> int \<times> nat) option" where
  "worker_view wid st =
     (case map_get wid (pm_workers st) of
        None \<Rightarrow> None
      | Some e \<Rightarrow> (case procs st (pid e) of
                     None \<Rightarrow> None
                   | Some pr \<Rightarrow> Some (env_WORKER_ID pr, env_WORKER_PORT pr, restarts e)))"

definition two_workers :: pm_state where
  "two_workers = setupMaster 0 1 [100, 101] (pm_init 3001)"

section \<open>Supervisor scripts: shutdown (server/start.js, start-cluster.js)\<close>

text \<open>
  What a shutdown handler does, as a little program: an action done at once, or a block
  handed to \<open>setTimeout\<close> with its delay in milliseconds. \<open>timeline\<close> lays the actions out
  on the clock, each timer taken at its nominal delay.
\<close>

datatype sv_action = SigtermBalancer | SigtermWorker nat | ExitProcess int

datatype timed = Do sv_action | After nat "timed list"

fun timeline :: "nat \<Rightarrow> timed \<Rightarrow> (nat \<times> sv_action) list" where
  "timeline t (Do a) = [(t, a)]"
| "timeline t (After d body) = concat (map (timeline (t + d)) body)"

definition timeline_of :: "nat \<Rightarrow> timed list \<Rightarrow> (nat \<times> sv_action) list" where
  "timeline_of t prog = concat (map (timeline t) prog)"

text \<open>
  \<open>shutdown\<close> of \<open>server/start.js\<close>, lines 144 to 165: signal the balancer unless it has
  been signalled already (\<open>killed\<close>); after 1000 ms signal every worker; 3000 ms after
  that, exit with code 0. \<open>ws\<close> are the ids of the workers started.
\<close>

definition start_js_shutdown :: "bool \<Rightarrow> nat list \<Rightarrow> timed list" where
  "start_js_shutdown killed ws =
     (if \<not> killed then [Do SigtermBalancer] else []) @
     [After 1000 (map (\<lambda>w. Do (SigtermWorker w)) ws @ [After 3000 [Do (ExitProcess 0)]])]"

text \<open>
  \<open>shutdown\<close> of \<open>start-cluster.js\<close>, lines 69 to 82: signal every worker; after 5000 ms
  signal the balancer and exit with code 0.
\<close>

definition start_cluster_shutdown :: "nat list \<Rightarrow> timed list" where
  "start_cluster_shutdown ws =
     map (\<lambda>w. Do (SigtermWorker w)) ws @ [After 5000 [Do SigtermBalancer, Do (ExitProcess 0)]]"

section \<open>Bridge: conversation history (server/openwebui-bridge.js)\<close>

datatype role = System | User | Assistant

record msg =
  role :: role
  content :: string

text \<open>
  The configuration: \<open>DEFAULT_SYSTEM_PROMPT\<close> (a string from the environment, with a default)
  is the argument \<open>prompt\<close> below and \<open>MAX_HISTORY_TURNS\<close> (a number from the environment,
  20 by default) the argument \<open>M\<close>, an integer that need not be positive.
\<close>

definition system_entry :: "string \<Rightarrow> msg" where
  "system_entry prompt = \<lparr>role = System, content = prompt\<rparr>"

type_synonym conversationStore = "string \<rightharpoonup> msg list"

text \<open>
  \<open>getConversation\<close>, lines 432 to 437: create the history on first use and return it.
\<close>

definition getConversation :: "string \<Rightarrow> string \<Rightarrow> conversationStore \<Rightarrow> msg list \<times> conversationStore" where
  "getConversation prompt uid store =
     (case store uid of
        None \<Rightarrow> ([system_entry prompt], store(uid \<mapsto> [system_entry prompt]))
      | Some h \<Rightarrow> (h, store))"

text \<open>
  \<open>Array.prototype.slice(k)\<close> with one integer argument: a negative \<open>k\<close> counts from the
  end, and \<open>slice(-0)\<close> is \<open>slice(0)\<close>, the whole array.
\<close>

definition js_slice :: "int \<Rightarrow> 'a list \<Rightarrow> 'a list" where
  "js_slice k xs = (if k < 0 then drop (length xs - nat (- k)) xs else drop (nat k) xs)"

text \<open>
  \<open>truncateConversation\<close>, lines 439 to 444: the first system entry (or a new one), then
  the last \<open>2 * M\<close> of the other entries.
\<close>

definition truncateConversation :: "int \<Rightarrow> string \<Rightarrow> msg list \<Rightarrow> msg list" where
  "truncateConversation M prompt history =
     (let sys = (case find (\<lambda>m. role m = System) history of
                   None \<Rightarrow> system_entry prompt | Some m \<Rightarrow> m);
          rest = filter (\<lambda>m. role m \<noteq> System) history;
          trimmed = js_slice (- (M * 2)) rest
      in sys # trimmed)"

text \<open>
  An attachment as \<open>pushUserMessage\<close> reads it: name, id and url, each possibly missing.
  The literals are given as their UTF-8 bytes: the header of the attachment context
  (two line feeds, a bracketed Chinese caption, a line feed), the name of an unnamed
  attachment, and the text that stands in for an empty message.
\<close>

record attachment =
  att_name :: "string option"
  att_id :: "string option"
  att_url :: "string option"

definition attachment_header :: string where
  "attachment_header = map char_of [10, 10, 91, 233, 153, 132, 228, 187, 182, 228, 184, 138, 228,
     184, 139, 230, 150, 135, 93, 10 :: nat]"

definition unnamed_attachment :: string where
  "unnamed_attachment = map char_of [230, 156, 170, 229, 145, 189, 229, 144, 141, 233, 153, 132,
     228, 187, 182 :: nat]"

definition analyse_uploaded :: string where
  "analyse_uploaded = map char_of [232, 175, 183, 231, 187, 147, 229, 144, 136, 229, 183, 178, 228,
     184, 138, 228, 188, 160, 230, 150, 135, 228, 187, 182, 232, 191, 155, 232, 161, 140, 229, 136,
     134, 230, 158, 144, 227, 128, 130 :: nat]"

definition digit_char :: "nat \<Rightarrow> char" where
  "digit_char d = char_of (48 + d)"

function show_nat :: "nat \<Rightarrow> string" where
  "show_nat n = (if n < 10 then [digit_char n] else show_nat (n div 10) @ [digit_char (n mod 10)])"
  by pat_completeness auto
termination
  by (relation "measure id") auto

declare show_nat.simps [simp del]

definition or_else :: "string option \<Rightarrow> string \<Rightarrow> string" where
  "or_else v d = (if truthy v then the v else d)"

definition file_line :: "nat \<Rightarrow> attachment \<Rightarrow> string" where
  "file_line idx f =
     show_nat (idx + 1) @ ''. '' @
     or_else (att_name f) (or_else (att_id f) unnamed_attachment) @ '' '' @
     (if truthy (att_url f) then ''('' @ the (att_url f) @ '')'' else [])"

fun join_nl :: "string list \<Rightarrow> string" where
  "join_nl [] = []"
| "join_nl [x] = x"
| "join_nl (x # y # ys) = x @ [CHR 0x0A] @ join_nl (y # ys)"

text \<open>
  \<open>pushUserMessage\<close>, lines 446 to 455, and \<open>pushAssistantMessage\<close>, lines 457 to 461.
  Both push onto the array they are given; here they return the array after the push.
\<close>

definition pushUserMessage :: "msg list \<Rightarrow> string option \<Rightarrow> attachment list \<Rightarrow> msg list" where
  "pushUserMessage history m fs =
     (let finalText = or_else m [] @
            (if fs \<noteq> [] then attachment_header @ join_nl (map (\<lambda>(i, f). file_line i f) (enumerate 0 fs))
             else [])
      in history @ [\<lparr>role = User,
                      content = (if trim finalText \<noteq> [] then trim finalText else analyse_uploaded)\<rparr>])"

definition pushAssistantMessage :: "msg list \<Rightarrow> string option \<Rightarrow> msg list" where
  "pushAssistantMessage history txt =
     (let clean = trim (or_else txt [])
      in if clean = [] then history else history @ [\<lparr>role = Assistant, content = clean\<rparr>])"

text \<open>
  The handlers, as far as they touch the store. The chat handler (lines 507 to 523) gets
  the history, and for an accepted request pushes the user's turn onto the stored array
  and sends the truncated copy upstream. When the stream ends (lines 576 to 582) it pushes
  the accumulated answer and stores the truncated history. The reset route (lines 802 to
  806) stores a history of the system entry alone.
\<close>

definition chat_begin ::
  "int \<Rightarrow> string \<Rightarrow> string \<Rightarrow> string option \<Rightarrow> attachment list \<Rightarrow> conversationStore
     \<Rightarrow> msg list option \<times> conversationStore" where
  "chat_begin M prompt uid m fs store =
     (let (history, store1) = getConversation prompt uid store
      in if \<not> truthy m \<and> fs = [] then (None, store1)
         else (let h = pushUserMessage history m fs
               in (Some (truncateConversation M prompt h), store1(uid \<mapsto> h))))"

definition chat_end :: "int \<Rightarrow> string \<Rightarrow> string \<Rightarrow> msg list \<Rightarrow> string option \<Rightarrow> conversationStore \<Rightarrow> conversationStore" where
  "chat_end M prompt uid history assistantText store =
     store(uid \<mapsto> truncateConversation M prompt (pushAssistantMessage history assistantText))"

definition session_reset :: "string \<Rightarrow> string \<Rightarrow> conversationStore \<Rightarrow> conversationStore" where
  "session_reset prompt uid store = store(uid \<mapsto> [system_entry prompt])"

text \<open>
  The properties of a history: its first element is the system entry and no other element
  has the system role; two neighbours both have the system role; the number of elements
  that are not system entries.
\<close>

definition single_system_first :: "string \<Rightarrow> msg list \<Rightarrow> bool" where
  "single_system_first prompt h =
     (h \<noteq> [] \<and> hd h = system_entry prompt \<and> filter (\<lambda>m. role m = System) (tl h) = [])"

fun consecutive_system :: "msg list \<Rightarrow> bool" where
  "consecutive_system (x # y # ys) = ((role x = System \<and> role y = System) \<or> consecutive_system (y # ys))"
| "consecutive_system xs = False"

definition non_system_count :: "msg list \<Rightarrow> nat" where
  "non_system_count h = length (filter (\<lambda>m. role m \<noteq> System) h)"

definition history_ok :: "int \<Rightarrow> string \<Rightarrow> msg list \<Rightarrow> bool" where
  "history_ok M prompt h =
     (single_system_first prompt h \<and> \<not> consecutive_system h \<and> int (non_system_count h) \<le> 2 * M)"

definition full_history :: "msg list" where
  "full_history = [system_entry ''be brief'', \<lparr>role = User, content = ''hello''\<rparr>,
     \<lparr>role = Assistant, content = ''hi''\<rparr>]"

section \<open>Strings\<close>

text \<open>
  \<open>trim\<close> leaves a string alone that neither starts nor ends with white space, and its
  fuel is enough: what it returns neither starts nor ends with white space.
\<close>

lemma trim_plain:
  assumes "find (startsWith str) white_space = None" "find (endsWith str) white_space = None"
  shows "trim str = str"
proof -
  have "trim_start (length str) str = str" using assms(1) by (cases "length str") simp_all
  moreover have "trim_end (length str) str = str" using assms(2) by (cases "length str") simp_all
  ultimately show ?thesis by (simp add: trim_def)
qed

lemma white_space_nonempty: "w \<in> set white_space \<Longrightarrow> w \<noteq> []"
  by (auto simp: white_space_def)

lemma trim_start_enough:
  "length str \<le> n \<Longrightarrow> find (startsWith (trim_start n str)) white_space = None"
proof (induction n arbitrary: str)
  case 0
  then show ?case by (simp add: white_space_def startsWith_def)
next
  case (Suc n)
  show ?case
  proof (cases "find (startsWith str) white_space")
    case None
    then show ?thesis by simp
  next
    case (Some w)
    then have w: "w \<in> set white_space" "startsWith str w"
      by (auto simp: find_Some_iff in_set_conv_nth)
    have ne: "w \<noteq> []" using w(1) by (rule white_space_nonempty)
    then have "str \<noteq> []" using w(2) by (auto simp: startsWith_def)
    with ne have "w \<noteq> []" "str \<noteq> []" by simp_all
    then have "length (drop (length w) str) \<le> n" using Suc.prems by (cases w) auto
    then show ?thesis using Suc.IH Some by simp
  qed
qed

lemma trim_end_enough:
  "length str \<le> n \<Longrightarrow> find (endsWith (trim_end n str)) white_space = None"
proof (induction n arbitrary: str)
  case 0
  then show ?case by (simp add: white_space_def endsWith_def)
next
  case (Suc n)
  show ?case
  proof (cases "find (endsWith str) white_space")
    case None
    then show ?thesis by simp
  next
    case (Some w)
    then have w: "w \<in> set white_space" "endsWith str w"
      by (auto simp: find_Some_iff in_set_conv_nth)
    have ne: "w \<noteq> []" using w(1) by (rule white_space_nonempty)
    then have "str \<noteq> []" using w(2) by (auto simp: endsWith_def)
    with ne have "w \<noteq> []" "str \<noteq> []" by simp_all
    then have "length (take (length str - length w) str) \<le> n" using Suc.prems by (cases w) auto
    then show ?thesis using Suc.IH Some by simp
  qed
qed

section \<open>Round-robin selection\<close>

lemma sel_add: "sel c W (N + M) = sel c W N @ sel (c + N) W M"
  by (induction M) (simp_all add: sel_def add.assoc)

lemma mod_window_inj:
  assumes "x < W" "y < W" "(c + x) mod W = (c + y) mod W" "x \<le> y"
  shows "x = (y::nat)"
proof -
  have "W dvd (c + y) - (c + x)"
    using assms(3) [symmetric] assms(4) by (simp add: mod_eq_dvd_iff_nat)
  then have "W dvd y - x" by simp
  moreover have "y - x < W" using assms(2) by simp
  ultimately have "y - x = 0" by (meson dvd_imp_le not_less zero_less_iff_neq_zero)
  then show ?thesis using assms(4) by simp
qed

lemma sel_distinct:
  assumes "N \<le> W"
  shows "distinct (sel c W N)"
proof -
  have "inj_on (\<lambda>k. (c + k) mod W) {0..<N}"
  proof (rule inj_onI)
    fix x y
    assume xy: "x \<in> {0..<N}" "y \<in> {0..<N}" and eq: "(c + x) mod W = (c + y) mod W"
    then have lt: "x < W" "y < W" using assms by auto
    show "x = y"
    proof (cases "x \<le> y")
      case True
      then show ?thesis using mod_window_inj [OF lt eq] by simp
    next
      case False
      then have "y \<le> x" by simp
      then show ?thesis using mod_window_inj [OF lt(2) lt(1) eq [symmetric]] by simp
    qed
  qed
  then show ?thesis by (simp add: sel_def distinct_map)
qed

lemma distinct_count_le1: "distinct xs \<Longrightarrow> count_list xs x \<le> 1"
  by (induction xs) auto

lemma distinct_count_mem: "distinct xs \<Longrightarrow> x \<in> set xs \<Longrightarrow> count_list xs x = 1"
  by (induction xs) auto

lemma sel_window_set:
  assumes "0 < W"
  shows "set (sel c W W) = {0..<W}"
proof (rule card_subset_eq)
  show "finite {0..<W}" by simp
  show "set (sel c W W) \<subseteq> {0..<W}" using assms by (auto simp: sel_def)
  have "card (set (sel c W W)) = length (sel c W W)"
    by (rule distinct_card) (simp add: sel_distinct)
  then show "card (set (sel c W W)) = card {0..<W}" by (simp add: sel_def)
qed

lemma sel_window_count:
  assumes "i < W"
  shows "count_list (sel c W W) i = 1"
proof (rule distinct_count_mem)
  show "distinct (sel c W W)" by (simp add: sel_distinct)
  show "i \<in> set (sel c W W)" using assms sel_window_set [of W c] by simp
qed

lemma sel_rounds_count:
  assumes "i < W"
  shows "count_list (sel c W (q * W)) i = q"
proof (induction q)
  case 0
  then show ?case by (simp add: sel_def)
next
  case (Suc q)
  have "sel c W (Suc q * W) = sel c W (q * W) @ sel (c + q * W) W W"
    using sel_add [of c W "q * W" W] by (simp add: add.commute)
  then show ?case using Suc sel_window_count [OF assms] by simp
qed

lemma div_window: "x < W \<Longrightarrow> (x + k * W) div W = (k::nat)"
  using div_mult_self1 [of W x k] by (cases "W = 0") simp_all

lemma ceil_exact: "0 < W \<Longrightarrow> (q * W + W - 1) div W = (q::nat)"
proof -
  assume W: "0 < W"
  have "q * W + W - 1 = (W - 1) + q * W" using W by arith
  moreover have "((W - 1) + q * W) div W = q" using W by (intro div_window) simp
  ultimately show ?thesis by (simp only:)
qed

lemma ceil_rem: "0 < r \<Longrightarrow> r < W \<Longrightarrow> (q * W + r + W - 1) div W = Suc (q::nat)"
proof -
  assume r: "0 < r" "r < W"
  have "q * W + r + W - 1 = (r - 1) + Suc q * W" using r by simp
  moreover have "((r - 1) + Suc q * W) div W = Suc q" using r by (intro div_window) simp
  ultimately show ?thesis by (simp only:)
qed

lemma sel_count_bounds:
  assumes "i < W"
  shows "N div W \<le> count_list (sel c W N) i \<and> count_list (sel c W N) i \<le> (N + W - 1) div W"
proof -
  define q where "q = N div W"
  define r where "r = N mod W"
  have W: "0 < W" using assms by simp
  have N: "N = q * W + r" by (simp add: q_def r_def)
  have r: "r < W" using W by (simp add: r_def)
  have split: "count_list (sel c W N) i = q + count_list (sel (c + q * W) W r) i"
    using sel_add [of c W "q * W" r] sel_rounds_count [OF assms, of c q] by (simp add: N)
  have le1: "count_list (sel (c + q * W) W r) i \<le> 1"
    by (rule distinct_count_le1) (use r in \<open>simp add: sel_distinct\<close>)
  show ?thesis
  proof (cases "r = 0")
    case True
    then have "count_list (sel (c + q * W) W r) i = 0" by (simp add: sel_def)
    moreover have "(N + W - 1) div W = q" using True ceil_exact [OF W, of q] by (simp add: N)
    ultimately show ?thesis using split by (simp add: q_def)
  next
    case False
    then have "(N + W - 1) div W = Suc q" using ceil_rem [of r W q] r by (simp add: N)
    then show ?thesis using split le1 by (simp add: q_def)
  qed
qed

text \<open>
  What one event does to the cursor and to the calls of \<open>proxy.web\<close>, for both balancers.
\<close>

lemma dispatched_update_res:
  "map (\<lambda>p. target (snd p)) (update_res rid r cs) = map (\<lambda>p. target (snd p)) cs"
  by (induction cs) (simp_all add: update_res_def)

lemma length_update_res: "length (update_res rid r cs) = length cs"
  by (simp add: update_res_def)

lemma length_dispatched: "length (dispatched s) = length (conns s)"
  by (simp add: dispatched_def)

lemma bal_step_incoming:
  assumes "alive s" "current (globals s) < length ws"
  shows "dispatched (bal_step ws s (Incoming rid)) = dispatched s @ [Some (ws ! current (globals s))]
       \<and> current (globals (bal_step ws s (Incoming rid))) = (current (globals s) + 1) mod length ws
       \<and> alive (bal_step ws s (Incoming rid))"
  using assms
  by (simp add: bal_step_def on_request_def Let_def select_target_def advance_def dispatched_def)

lemma bal_step_other:
  assumes "\<not> is_incoming e"
  shows "dispatched (bal_step ws s e) = dispatched s
       \<and> current (globals (bal_step ws s e)) = current (globals s)"
  using assms
  by (cases e)
     (simp_all add: bal_step_def on_proxyRes_def on_piped_def on_proxy_error_def dispatched_def
        dispatched_update_res split: option.splits sum.splits)

lemma short_step_incoming:
  assumes "alive s" "current (globals s) < length ws"
  shows "dispatched (short_step ws s (Incoming rid)) = dispatched s @ [Some (ws ! current (globals s))]
       \<and> current (globals (short_step ws s (Incoming rid))) = (current (globals s) + 1) mod length ws
       \<and> alive (short_step ws s (Incoming rid))"
  using assms
  by (simp add: short_step_def on_request_short_def select_target_def dispatched_def)

lemma short_step_other:
  assumes "\<not> is_incoming e"
  shows "dispatched (short_step ws s e) = dispatched s
       \<and> current (globals (short_step ws s e)) = current (globals s)"
  using assms
  by (cases e)
     (simp_all add: short_step_def on_piped_def dispatched_def dispatched_update_res
        split: option.splits)

lemma ended_process_stays:
  assumes "\<And>s e. \<not> alive s \<Longrightarrow> step s e = s"
  shows "\<not> alive s \<Longrightarrow> foldl step s es = s"
  by (induction es) (simp_all add: assms)

lemma sel_Suc_front:
  assumes "c < W"
  shows "sel c W (Suc n) = c # sel ((c + 1) mod W) W n"
  using assms sel_add [of c W 1 n] by (simp add: sel_def mod_add_left_eq)

text \<open>
  A run of a process whose steps treat the cursor and the calls of \<open>proxy.web\<close> as above:
  the calls made during the run go to the workers at the cursor positions
  \<open>c, c + 1, \<dots>\<close> modulo the pool size, the cursor ends \<open>n\<close> positions further, \<open>n\<close>
  the number of these calls, and if the process is still running at the end, every request
  that arrived was accepted.
\<close>

lemma round_robin_run:
  fixes step :: "bal_state \<Rightarrow> bal_event \<Rightarrow> bal_state"
  assumes ws: "ws \<noteq> []"
    and inc: "\<And>s rid. alive s \<Longrightarrow> current (globals s) < length ws \<Longrightarrow>
       dispatched (step s (Incoming rid)) = dispatched s @ [Some (ws ! current (globals s))]
       \<and> current (globals (step s (Incoming rid))) = (current (globals s) + 1) mod length ws
       \<and> alive (step s (Incoming rid))"
    and oth: "\<And>s e. \<not> is_incoming e \<Longrightarrow>
       dispatched (step s e) = dispatched s
       \<and> current (globals (step s e)) = current (globals s)"
    and dead: "\<And>s e. \<not> alive s \<Longrightarrow> step s e = s"
    and c: "current (globals s) < length ws"
  shows "\<exists>n. dispatched (foldl step s es)
            = dispatched s @ map (\<lambda>i. Some (ws ! i)) (sel (current (globals s)) (length ws) n)
          \<and> current (globals (foldl step s es)) = (current (globals s) + n) mod length ws
          \<and> (alive (foldl step s es) \<longrightarrow> n = length (filter is_incoming es))"
  using c
proof (induction es arbitrary: s)
  case Nil
  then show ?case by (intro exI [of _ 0]) (simp add: sel_def)
next
  case (Cons e es)
  show ?case
  proof (cases "alive s")
    case False
    then have "foldl step s (e # es) = s"
      using ended_process_stays [of step s "e # es"] dead by blast
    then show ?thesis using False Cons.prems by (intro exI [of _ 0]) (simp add: sel_def)
  next
    case True
    show ?thesis
    proof (cases "is_incoming e")
      case inc_e: True
      then obtain rid where e: "e = Incoming rid" by (cases e) auto
      note st = inc [OF True Cons.prems, of rid]
      have lt: "current (globals (step s e)) < length ws" using st ws by (simp add: e)
      from Cons.IH [OF lt] obtain n where n:
        "dispatched (foldl step (step s e) es)
           = dispatched (step s e) @ map (\<lambda>i. Some (ws ! i)) (sel (current (globals (step s e))) (length ws) n)"
        "current (globals (foldl step (step s e) es)) = (current (globals (step s e)) + n) mod length ws"
        "alive (foldl step (step s e) es) \<longrightarrow> n = length (filter is_incoming es)"
        by blast
      have "dispatched (foldl step s (e # es))
           = dispatched s @ map (\<lambda>i. Some (ws ! i)) (sel (current (globals s)) (length ws) (Suc n))"
        using n(1) st by (simp add: e sel_Suc_front [OF Cons.prems])
      moreover have "current (globals (foldl step s (e # es))) = (current (globals s) + Suc n) mod length ws"
        using n(2) st by (simp add: e mod_add_left_eq)
      moreover have "alive (foldl step s (e # es)) \<longrightarrow> Suc n = length (filter is_incoming (e # es))"
        using n(3) by (simp add: e)
      ultimately show ?thesis by blast
    next
      case not_inc: False
      note st = oth [OF not_inc, of s]
      have lt: "current (globals (step s e)) < length ws" using st Cons.prems by simp
      from Cons.IH [OF lt] obtain n where n:
        "dispatched (foldl step (step s e) es)
           = dispatched (step s e) @ map (\<lambda>i. Some (ws ! i)) (sel (current (globals (step s e))) (length ws) n)"
        "current (globals (foldl step (step s e) es)) = (current (globals (step s e)) + n) mod length ws"
        "alive (foldl step (step s e) es) \<longrightarrow> n = length (filter is_incoming es)"
        by blast
      show ?thesis using n st not_inc by (intro exI [of _ n]) simp
    qed
  qed
qed

lemma count_targets:
  assumes "distinct ws" "i < length ws" "set xs \<subseteq> {0..<length ws}"
  shows "count_list (map (\<lambda>i. Some (ws ! i)) xs) (Some (ws ! i)) = count_list xs i"
  using assms(3)
proof (induction xs)
  case Nil
  then show ?case by simp
next
  case (Cons x xs)
  then have "x < length ws" by simp
  then have "(ws ! x = ws ! i) = (x = i)"
    using assms by (simp add: nth_eq_iff_index_eq)
  then show ?case using Cons by simp
qed

text \<open>The same, read off the two states, with the bounds on how often a worker was chosen.\<close>

lemma round_robin_since:
  assumes ws: "ws \<noteq> []" and d: "distinct ws" and w: "w \<in> set ws"
    and run: "dispatched r
            = dispatched s @ map (\<lambda>i. Some (ws ! i)) (sel (current (globals s)) (length ws) n)"
  shows "accepted_since s r = n
       \<and> n div length ws \<le> count_list (dispatched_since s r) (Some w)
       \<and> count_list (dispatched_since s r) (Some w) \<le> (n + length ws - 1) div length ws"
proof -
  obtain i where i: "i < length ws" "w = ws ! i"
    using w by (auto simp: in_set_conv_nth)
  have "length (dispatched r) = length (dispatched s) + n"
    by (simp add: run sel_def)
  then have acc: "accepted_since s r = n"
    by (simp add: accepted_since_def length_dispatched)
  have since: "dispatched_since s r = map (\<lambda>i. Some (ws ! i)) (sel (current (globals s)) (length ws) n)"
    using length_dispatched [of s] by (simp add: dispatched_since_def run)
  have sub: "set (sel (current (globals s)) (length ws) n) \<subseteq> {0..<length ws}"
    using ws by (auto simp: sel_def)
  have "count_list (dispatched_since s r) (Some w) = count_list (sel (current (globals s)) (length ws) n) i"
    using count_targets [OF d i(1) sub] i(2) by (simp add: since)
  then show ?thesis
    using acc sel_count_bounds [OF i(1)] by simp
qed

text \<open>
  C3. For every run of either balancer over a fixed, non-empty pool \<open>ws\<close> of \<open>W\<close>
  distinct workers, started with the cursor at a position \<open>c\<close> inside the pool, and for
  every interleaving of arriving requests with proxy responses and proxy errors: with \<open>N\<close>
  the number of requests the balancer accepted during the run, that is, for which it called
  \<open>proxy.web\<close>, the cursor stands at \<open>(c + N) mod W\<close> after the run, so it advanced by
  exactly one modulo \<open>W\<close> per accepted request whatever the proxy reported, and every
  worker of the pool was the target of at least \<open>N div W\<close> and at most
  \<open>(N + W - 1) div W\<close> of these calls (floor and ceiling of \<open>N / W\<close>). A proxy error can
  end the process (in the shorter balancer every one does; in simple-balancer.js one that
  arrives after the worker's response was passed on); as long as the process runs, every
  request that arrives is accepted.
\<close>

theorem round_robin_fair:
  assumes "ws \<noteq> []" "distinct ws" "current (globals s) < length ws" "w \<in> set ws"
  shows "current (globals (bal_run ws s es))
           = (current (globals s) + accepted_since s (bal_run ws s es)) mod length ws
       \<and> accepted_since s (bal_run ws s es) div length ws
           \<le> count_list (dispatched_since s (bal_run ws s es)) (Some w)
       \<and> count_list (dispatched_since s (bal_run ws s es)) (Some w)
           \<le> (accepted_since s (bal_run ws s es) + length ws - 1) div length ws
       \<and> (alive (bal_run ws s es) \<longrightarrow>
            accepted_since s (bal_run ws s es) = length (filter is_incoming es))
       \<and> current (globals (short_run ws s es))
           = (current (globals s) + accepted_since s (short_run ws s es)) mod length ws
       \<and> accepted_since s (short_run ws s es) div length ws
           \<le> count_list (dispatched_since s (short_run ws s es)) (Some w)
       \<and> count_list (dispatched_since s (short_run ws s es)) (Some w)
           \<le> (accepted_since s (short_run ws s es) + length ws - 1) div length ws
       \<and> (alive (short_run ws s es) \<longrightarrow>
            accepted_since s (short_run ws s es) = length (filter is_incoming es))"
proof -
  have dead1: "\<And>s e. \<not> alive s \<Longrightarrow> bal_step ws s e = s" by (simp add: bal_step_def)
  have dead2: "\<And>s e. \<not> alive s \<Longrightarrow> short_step ws s e = s" by (simp add: short_step_def)
  from round_robin_run [of ws "bal_step ws", OF assms(1) bal_step_incoming bal_step_other dead1 assms(3)]
  obtain n where n:
    "dispatched (bal_run ws s es)
       = dispatched s @ map (\<lambda>i. Some (ws ! i)) (sel (current (globals s)) (length ws) n)"
    "current (globals (bal_run ws s es)) = (current (globals s) + n) mod length ws"
    "alive (bal_run ws s es) \<longrightarrow> n = length (filter is_incoming es)"
    unfolding bal_run_def by blast
  from round_robin_run [of ws "short_step ws", OF assms(1) short_step_incoming short_step_other dead2 assms(3)]
  obtain m where m:
    "dispatched (short_run ws s es)
       = dispatched s @ map (\<lambda>i. Some (ws ! i)) (sel (current (globals s)) (length ws) m)"
    "current (globals (short_run ws s es)) = (current (globals s) + m) mod length ws"
    "alive (short_run ws s es) \<longrightarrow> m = length (filter is_incoming es)"
    unfolding short_run_def by blast
  show ?thesis
    using round_robin_since [OF assms(1,2,4) n(1)] round_robin_since [OF assms(1,2,4) m(1)]
      n(2,3) m(2,3)
    by simp
qed

theorem round_robin_fair_witness:
  "workers \<noteq> [] \<and> distinct workers \<and> current (globals bal_state_init) < length workers
   \<and> ''http://localhost:3002'' \<in> set workers
   \<and> alive (bal_run workers bal_state_init
        [Incoming 0, ProxyRes 0, Incoming 1, ProxyError 1 ''down'', Incoming 2, Incoming 3,
         Incoming 4, Incoming 5])
   \<and> accepted_since bal_state_init (bal_run workers bal_state_init
        [Incoming 0, ProxyRes 0, Incoming 1, ProxyError 1 ''down'', Incoming 2, Incoming 3,
         Incoming 4, Incoming 5]) = 6
   \<and> current (globals (bal_run workers bal_state_init
        [Incoming 0, ProxyRes 0, Incoming 1, ProxyError 1 ''down'', Incoming 2, Incoming 3,
         Incoming 4, Incoming 5])) = (0 + 6) mod 4
   \<and> 6 div 4 \<le> count_list (dispatched_since bal_state_init (bal_run workers bal_state_init
        [Incoming 0, ProxyRes 0, Incoming 1, ProxyError 1 ''down'', Incoming 2, Incoming 3,
         Incoming 4, Incoming 5])) (Some ''http://localhost:3002'')
   \<and> count_list (dispatched_since bal_state_init (bal_run workers bal_state_init
        [Incoming 0, ProxyRes 0, Incoming 1, ProxyError 1 ''down'', Incoming 2, Incoming 3,
         Incoming 4, Incoming 5])) (Some ''http://localhost:3002'') \<le> (6 + 4 - 1) div 4
   \<and> \<not> alive (short_run workers bal_state_init
        [Incoming 0, Incoming 1, ProxyError 1 ''down'', Incoming 2])
   \<and> accepted_since bal_state_init (short_run workers bal_state_init
        [Incoming 0, Incoming 1, ProxyError 1 ''down'', Incoming 2]) = 2
   \<and> current (globals (short_run workers bal_state_init
        [Incoming 0, Incoming 1, ProxyError 1 ''down'', Incoming 2])) = (0 + 2) mod 4
   \<and> 2 div 4 \<le> count_list (dispatched_since bal_state_init (short_run workers bal_state_init
        [Incoming 0, Incoming 1, ProxyError 1 ''down'', Incoming 2])) (Some ''http://localhost:3002'')
   \<and> count_list (dispatched_since bal_state_init (short_run workers bal_state_init
        [Incoming 0, Incoming 1, ProxyError 1 ''down'', Incoming 2])) (Some ''http://localhost:3002'')
        \<le> (2 + 4 - 1) div 4"
proof -
  have h1: "workers \<noteq> []" by (simp add: workers_def)
  have h2: "distinct workers" by (simp add: workers_def)
  have h3: "current (globals bal_state_init) < length workers"
    by (simp add: bal_state_init_def balancer_init_def workers_def)
  have h4: "''http://localhost:3002'' \<in> set workers" by (simp add: workers_def)
  have c: "current (globals bal_state_init) = 0" "length workers = 4"
    by (simp_all add: bal_state_init_def balancer_init_def workers_def)
  have a: "alive (bal_run workers bal_state_init
        [Incoming 0, ProxyRes 0, Incoming 1, ProxyError 1 ''down'', Incoming 2, Incoming 3,
         Incoming 4, Incoming 5])"
    by (simp add: bal_run_def bal_step_def bal_state_init_def on_request_def Let_def
        on_proxyRes_def on_proxy_error_def conn_of_def update_res_def writeHead_def
        new_response_def setHeader_def res_write_def res_end_def)
  have n: "accepted_since bal_state_init (bal_run workers bal_state_init
        [Incoming 0, ProxyRes 0, Incoming 1, ProxyError 1 ''down'', Incoming 2, Incoming 3,
         Incoming 4, Incoming 5]) = 6"
    by (simp add: accepted_since_def bal_run_def bal_step_def bal_state_init_def on_request_def
        Let_def on_proxyRes_def on_proxy_error_def conn_of_def update_res_def writeHead_def
        new_response_def setHeader_def res_write_def res_end_def)
  have b: "\<not> alive (short_run workers bal_state_init
        [Incoming 0, Incoming 1, ProxyError 1 ''down'', Incoming 2])"
    by (simp add: short_run_def short_step_def bal_state_init_def balancer_init_def workers_def
        on_request_short_def select_target_def)
  have m: "accepted_since bal_state_init (short_run workers bal_state_init
        [Incoming 0, Incoming 1, ProxyError 1 ''down'', Incoming 2]) = 2"
    by (simp add: accepted_since_def short_run_def short_step_def bal_state_init_def
        balancer_init_def workers_def on_request_short_def select_target_def)
  show ?thesis
    using round_robin_fair [OF h1 h2 h3 h4, of "[Incoming 0, ProxyRes 0, Incoming 1,
      ProxyError 1 ''down'', Incoming 2, Incoming 3, Incoming 4, Incoming 5]"]
      round_robin_fair [OF h1 h2 h3 h4, of "[Incoming 0, Incoming 1, ProxyError 1 ''down'',
      Incoming 2]"] h1 h2 h3 h4 a b
    by (simp only: n m c) simp
qed

section \<open>The X-Worker-Hit header\<close>

text \<open>
  C9. The balancer's \<open>X-Worker-Hit\<close> header should name the worker that served the request.
  The listener writes the module-level cursor, which the request handler has already
  advanced: the fourth of four sequential requests is proxied to the fourth worker
  (\<open>http://localhost:3004\<close>, index 3) and its response carries \<open>X-Worker-Hit: 0\<close>; and when
  two requests arrive before the first response, the first request is proxied to
  \<open>http://localhost:3001\<close> (index 0) and its response carries \<open>X-Worker-Hit: 2\<close>.
\<close>

theorem worker_hit_is_advanced_cursor:
  "served_by (bal_run workers bal_state_init
      [Incoming 0, ProxyRes 0, Incoming 1, ProxyRes 1, Incoming 2, ProxyRes 2,
       Incoming 3, ProxyRes 3]) 3 = Some ''http://localhost:3004''
   \<and> worker_hit (bal_run workers bal_state_init
      [Incoming 0, ProxyRes 0, Incoming 1, ProxyRes 1, Incoming 2, ProxyRes 2,
       Incoming 3, ProxyRes 3]) 3 = Some (HNum 0)
   \<and> served_by (bal_run workers bal_state_init [Incoming 0, Incoming 1, ProxyRes 0]) 0
       = Some ''http://localhost:3001''
   \<and> worker_hit (bal_run workers bal_state_init [Incoming 0, Incoming 1, ProxyRes 0]) 0
       = Some (HNum 2)"
  by (simp add: served_by_def worker_hit_def bal_run_def bal_step_def conn_of_def update_res_def
      bal_state_init_def balancer_init_def workers_def on_request_def on_proxyRes_def
      advance_def select_target_def getHeader_def setHeader_def new_response_def)

section \<open>The session middleware\<close>

text \<open>
  C10, as the code has it. For every request that reaches the session middleware, whatever
  its route: the request counter grows by one; the request leaves with a non-empty user id
  and with the session stored under that id, which is the session that was stored before or,
  when there was none, a fresh one created for this worker, and no other entry of the store
  changes; when the request's \<open>x-user-id\<close> header is a non-empty string the response is
  left as it was and that string is the user id; when the header is absent or empty the
  generated identifier is the user id and is set as the \<open>X-User-ID\<close> response header.
\<close>

theorem session_middleware_effect:
  assumes "uuid \<noteq> []"
  shows "case session_middleware wid now uuid uuid' req rs st of (req', rs', st') \<Rightarrow>
       requests (workerStats st') = requests (workerStats st) + 1
     \<and> (\<exists>uid sess. userId req' = Some uid \<and> session req' = Some sess
          \<and> sessions st' uid = Some sess \<and> uid \<noteq> []
          \<and> (sessions st uid = None \<longrightarrow> sess = UserSession_new (Some uid) (Some wid) now uuid')
          \<and> (sessions st uid \<noteq> None \<longrightarrow> sessions st uid = Some sess)
          \<and> (\<forall>k. k \<noteq> uid \<longrightarrow> sessions st' k = sessions st k))
     \<and> (truthy (x_user_id req) \<longrightarrow> rs' = rs \<and> userId req' = x_user_id req)
     \<and> (\<not> truthy (x_user_id req) \<longrightarrow>
           rs' = setHeader ''X-User-ID'' (HStr uuid) rs \<and> userId req' = Some uuid)
     \<and> (\<forall>r. session_middleware wid now uuid uuid' (req\<lparr>route := r\<rparr>) rs st
             = (req'\<lparr>route := r\<rparr>, rs', st'))"
  using assms
  by (auto simp: session_middleware_def Let_def getSession_def createSession_def setSession_def
      truthy_def split: option.splits if_splits prod.splits)

theorem session_middleware_effect_witness:
  "''generated-uuid'' \<noteq> []
   \<and> requests (workerStats (snd (snd (session_middleware ''1'' 1000 ''generated-uuid'' ''other-uuid''
        \<lparr>route = Health, x_user_id = Some ''alice'', userId = None, session = None\<rparr>
        new_response fresh_worker)))) = 1
   \<and> fst (snd (session_middleware ''1'' 1000 ''generated-uuid'' ''other-uuid''
        \<lparr>route = Health, x_user_id = Some ''alice'', userId = None, session = None\<rparr>
        new_response fresh_worker)) = new_response
   \<and> userId (fst (session_middleware ''1'' 1000 ''generated-uuid'' ''other-uuid''
        \<lparr>route = Health, x_user_id = Some ''alice'', userId = None, session = None\<rparr>
        new_response fresh_worker)) = Some ''alice''
   \<and> fst (snd (session_middleware ''1'' 1000 ''generated-uuid'' ''other-uuid''
        \<lparr>route = Models, x_user_id = None, userId = None, session = None\<rparr>
        new_response fresh_worker)) = setHeader ''X-User-ID'' (HStr ''generated-uuid'') new_response
   \<and> userId (fst (session_middleware ''1'' 1000 ''generated-uuid'' ''other-uuid''
        \<lparr>route = Models, x_user_id = None, userId = None, session = None\<rparr>
        new_response fresh_worker)) = Some ''generated-uuid''"
proof -
  have h: "''generated-uuid'' \<noteq> []" by simp
  show ?thesis
    using session_middleware_effect [OF h, where wid = "''1''" and now = 1000
      and uuid' = "''other-uuid''" and rs = new_response and st = fresh_worker
      and req = "\<lparr>route = Health, x_user_id = Some ''alice'', userId = None, session = None\<rparr>"]
      session_middleware_effect [OF h, where wid = "''1''" and now = 1000
      and uuid' = "''other-uuid''" and rs = new_response and st = fresh_worker
      and req = "\<lparr>route = Models, x_user_id = None, userId = None, session = None\<rparr>"]
    by (simp add: fresh_worker_def truthy_def split: prod.splits)
qed

text \<open>
  C10 as stated fails for a request that carries an \<open>X-User-ID\<close> header with an empty
  value: the header is present, and the generated identifier is set on the response.
\<close>

theorem empty_header_gets_generated_id:
  "x_user_id \<lparr>route = Files, x_user_id = Some [], userId = None, session = None\<rparr> = Some []
   \<and> getHeader ''X-User-ID'' (fst (snd (session_middleware ''1'' 1000 ''generated-uuid'' ''other-uuid''
        \<lparr>route = Files, x_user_id = Some [], userId = None, session = None\<rparr>
        new_response fresh_worker))) = Some (HStr ''generated-uuid'')"
  by (simp add: session_middleware_def Let_def truthy_def getHeader_def setHeader_def
      new_response_def getSession_def createSession_def fresh_worker_def split: prod.splits)

section \<open>The idle sweep\<close>

lemma sweep_tick_unchanged: "sweep_tick now later uuid st = st"
  by (simp add: sweep_tick_def redisStore_getAllSessions_def)

text \<open>
  Even with a store to read from, the loop would judge a session it has just constructed,
  whose last activity is the moment of construction and whose file list is empty: unless
  an hour passes between the two readings of the clock, nothing is swept.
\<close>

lemma sweep_loop_unchanged:
  assumes "int later - int now \<le> 3600000"
  shows "sweep_loop now later uuid sds st = st"
  using assms
  by (induction sds arbitrary: st) (simp_all add: cleanupInactive_def UserSession_new_def Let_def)

text \<open>
  C2. A session last active at time 0 with one uploaded file, swept at time 7200000 (two
  hours later, the timeout being 3600000): the tick leaves the session in the store and the
  file on disk. The same holds when the loop body is run on that session's stored data.
\<close>

theorem idle_sweep_evicts_nothing:
  "int 7200000 - int (lastActivity idle_session) > 3600000
   \<and> sessions (sweep_tick 7200000 7200005 ''uuid'' idle_state) ''u1'' = Some idle_session
   \<and> (''u1'', ''f1'') \<in> uploads (sweep_tick 7200000 7200005 ''uuid'' idle_state)
   \<and> sweep_loop 7200000 7200005 ''uuid'' [\<lparr>sd_id = Some ''u1'', sd_workerId = Some ''1''\<rparr>]
        idle_state = idle_state"
  by (simp add: sweep_tick_def redisStore_getAllSessions_def idle_state_def idle_session_def
      cleanupInactive_def UserSession_new_def)

section \<open>The chat stream: validation\<close>

lemma chat_run_append: "chat_run parse s (xs @ ys) = chat_run parse (chat_run parse s xs) ys"
  by (induction xs arbitrary: s) simp_all

lemma rejected_step: "rejected rs s \<Longrightarrow> rejected rs (chat_step parse s e)"
  by (cases e) (simp_all add: rejected_def on_close_def clear_timer_def destroy_upstream_def)

lemma rejected_run: "rejected rs s \<Longrightarrow> rejected rs (chat_run parse s es)"
  by (induction es arbitrary: s) (simp_all add: rejected_step)

lemma validation_rejects:
  assumes "\<not> truthy (message b)" "\<not> has_files b" "awaiting_validation b rs s"
  shows "rejected rs (chat_step parse s (Proceed parts))"
  using assms by (simp add: awaiting_validation_def rejected_def on_proceed_def Let_def)

lemma awaiting_step:
  assumes "\<not> truthy (message b)" "\<not> has_files b" "awaiting_validation b rs s"
  shows "awaiting_validation b rs (chat_step parse s e) \<or> rejected rs (chat_step parse s e)"
proof (cases e)
  case (Proceed parts)
  then show ?thesis using validation_rejects [OF assms] by simp
qed (use assms(3) in \<open>simp_all add: awaiting_validation_def on_close_def clear_timer_def
      destroy_upstream_def\<close>)

lemma awaiting_run:
  assumes "\<not> truthy (message b)" "\<not> has_files b" "awaiting_validation b rs s"
  shows "awaiting_validation b rs (chat_run parse s es) \<or> rejected rs (chat_run parse s es)"
  using assms(3)
proof (induction es arbitrary: s)
  case Nil
  then show ?case by simp
next
  case (Cons e es)
  have "awaiting_validation b rs (chat_step parse s e) \<or> rejected rs (chat_step parse s e)"
    using assms(1,2) Cons.prems by (rule awaiting_step)
  then show ?case
  proof
    assume "awaiting_validation b rs (chat_step parse s e)"
    then show ?thesis using Cons.IH by simp
  next
    assume "rejected rs (chat_step parse s e)"
    then show ?thesis using rejected_run by simp
  qed
qed

lemma rejected_after_proceed:
  assumes "\<not> truthy (message b)" "\<not> has_files b"
  shows "rejected rs (chat_run parse (chat_init b rid rs) (pre @ Proceed parts # post))"
proof -
  let ?s = "chat_run parse (chat_init b rid rs) pre"
  have init: "awaiting_validation b rs (chat_init b rid rs)"
    by (simp add: awaiting_validation_def chat_init_def)
  have "awaiting_validation b rs ?s \<or> rejected rs ?s"
    using assms init by (rule awaiting_run)
  then have "rejected rs (chat_step parse ?s (Proceed parts))"
  proof
    assume "awaiting_validation b rs ?s"
    then show ?thesis using validation_rejects [OF assms] by simp
  next
    assume "rejected rs ?s"
    then show ?thesis by (rule rejected_step)
  qed
  then have "rejected rs (chat_run parse (chat_step parse ?s (Proceed parts)) post)"
    by (rule rejected_run)
  then show ?thesis by (simp add: chat_run_append)
qed

text \<open>
  C4. A chat-stream request whose message is falsy (absent or empty) and whose files are
  \<open>null\<close> or an empty array: whatever events surround the handler's validation (the client
  may close the connection before or after it), the response has status 400, its body is
  the JSON error object and nothing else was written since the handler started, the
  response is ended with a JSON content type, and at no point of any run of this request is
  an upstream call made.
\<close>

theorem empty_request_rejected:
  assumes "\<not> truthy (message b)" "files_b b = None \<or> files_b b = Some []"
  shows "upstreamCalls (chat_run parse (chat_init b rid rs) es) = []
       \<and> statusCode (res (chat_run parse (chat_init b rid rs) (pre @ Proceed parts # post))) = 400
       \<and> chunks (res (chat_run parse (chat_init b rid rs) (pre @ Proceed parts # post)))
            = chunks rs @ [JsonError EmptyMessage]
       \<and> writableEnded (res (chat_run parse (chat_init b rid rs) (pre @ Proceed parts # post)))
       \<and> getHeader ''Content-Type''
            (res (chat_run parse (chat_init b rid rs) (pre @ Proceed parts # post)))
            = Some (HStr ''application/json; charset=utf-8'')
       \<and> upstreamCalls (chat_run parse (chat_init b rid rs) (pre @ Proceed parts # post)) = []"
proof -
  have nf: "\<not> has_files b" using assms(2) by (auto simp: has_files_def)
  have init: "awaiting_validation b rs (chat_init b rid rs)"
    by (simp add: awaiting_validation_def chat_init_def)
  have "awaiting_validation b rs (chat_run parse (chat_init b rid rs) es)
        \<or> rejected rs (chat_run parse (chat_init b rid rs) es)"
    using assms(1) nf init by (rule awaiting_run)
  then have a: "upstreamCalls (chat_run parse (chat_init b rid rs) es) = []"
    by (auto simp: awaiting_validation_def rejected_def)
  have "rejected rs (chat_run parse (chat_init b rid rs) (pre @ Proceed parts # post))"
    using assms(1) nf by (rule rejected_after_proceed)
  then show ?thesis using a
    by (simp add: rejected_def json_reply_def res_end_def res_write_def setHeader_def getHeader_def)
qed

theorem empty_request_rejected_witness:
  "\<not> truthy (message empty_body)
   \<and> (files_b empty_body = None \<or> files_b empty_body = Some [])
   \<and> upstreamCalls (chat_run sample_parse (chat_init empty_body ''r1'' new_response)
        [Proceed [], AxiosResolved, UpData ''data: A'']) = []
   \<and> statusCode (res (chat_run sample_parse (chat_init empty_body ''r1'' new_response)
        ([Close] @ Proceed [] # [TimeoutFired]))) = 400
   \<and> chunks (res (chat_run sample_parse (chat_init empty_body ''r1'' new_response)
        ([Close] @ Proceed [] # [TimeoutFired]))) = chunks new_response @ [JsonError EmptyMessage]
   \<and> writableEnded (res (chat_run sample_parse (chat_init empty_body ''r1'' new_response)
        ([Close] @ Proceed [] # [TimeoutFired])))"
proof -
  have h1: "\<not> truthy (message empty_body)" by (simp add: empty_body_def truthy_def)
  have h2: "files_b empty_body = None \<or> files_b empty_body = Some []" by (simp add: empty_body_def)
  show ?thesis
    using empty_request_rejected [OF h1 h2, where parse = sample_parse and rid = "''r1''"
      and rs = new_response and es = "[Proceed [], AxiosResolved, UpData ''data: A'']"
      and pre = "[Close]" and parts = "[]" and post = "[TimeoutFired]"] h1 h2
    by blast
qed

section \<open>The chat stream: upstream errors and the timeout\<close>

text \<open>
  Once the response's headers are sent, the timeout callback, the stream's \<open>error\<close>
  listener and the \<open>catch\<close> around the upstream call write nothing and do not end the
  response: their guard asks for \<open>!res.headersSent\<close>.
\<close>

lemma error_handlers_silent:
  assumes "headersSent (res s)"
  shows "res (chat_step parse s (UpError m)) = res s"
    and "res (chat_step parse s TimeoutFired) = res s"
    and "res (chat_step parse s (AxiosRejected st)) = res s"
  using assms
  by (simp_all add: on_stream_error_def emit_error_done_def clear_timer_def on_timeout_def
      destroy_upstream_def on_api_error_def)

text \<open>And they are sent as soon as the handler has written its \<open>model_info\<close> event.\<close>

lemma proceed_sends_headers:
  assumes "phase s = Started" "phase (chat_step parse s (Proceed parts)) \<noteq> Finished"
  shows "headersSent (res (chat_step parse s (Proceed parts)))"
  using assms
  by (auto simp: on_proceed_def Let_def write_event_def res_write_def clear_timer_def
      split: if_splits)

text \<open>
  C1. A request with message \<open>hi\<close> and no files, the client connected throughout. When the
  upstream stream emits \<open>error\<close> after the upstream call resolved, and likewise when the
  timer fires while the upstream call is pending, the response holds the \<open>model_info\<close>
  event and nothing else: no error event, no done event, and the response is not ended.
\<close>

theorem upstream_error_leaves_stream_open:
  "chunks (res (chat_run parse (chat_init hello_body ''r1'' new_response)
      [Proceed [], AxiosResolved, UpError ''socket hang up'']))
     = [Sse (ModelInfo (Some ''Qwen2.5-72B'') (Some ''32K'') ''r1'')]
   \<and> \<not> writableEnded (res (chat_run parse (chat_init hello_body ''r1'' new_response)
      [Proceed [], AxiosResolved, UpError ''socket hang up'']))
   \<and> isClientConnected (chat_run parse (chat_init hello_body ''r1'' new_response)
      [Proceed [], AxiosResolved, UpError ''socket hang up''])
   \<and> chunks (res (chat_run parse (chat_init hello_body ''r1'' new_response)
      [Proceed [], TimeoutFired]))
     = [Sse (ModelInfo (Some ''Qwen2.5-72B'') (Some ''32K'') ''r1'')]
   \<and> \<not> writableEnded (res (chat_run parse (chat_init hello_body ''r1'' new_response)
      [Proceed [], TimeoutFired]))
   \<and> isClientConnected (chat_run parse (chat_init hello_body ''r1'' new_response)
      [Proceed [], TimeoutFired])"
  by (simp add: chat_init_def hello_body_def on_proceed_def Let_def truthy_def has_files_def
      sse_headers_def setHeader_def new_response_def write_event_def res_write_def
      getCurrentModelCapabilities_def on_stream_error_def emit_error_done_def clear_timer_def
      on_timeout_def destroy_upstream_def clearTimeout_def)

text \<open>
  The same for every accepted request (a truthy message, or files) whose client stays
  connected: after the handler has called the upstream API, neither a stream error nor the
  timer changes the response, which holds the \<open>model_info\<close> event as its last chunk.
\<close>

theorem started_stream_gets_no_terminal_events:
  assumes "truthy (message b) \<or> has_files b"
  shows "res (chat_run parse (chat_init b rid rs) [Proceed parts, AxiosResolved, UpError m])
           = res (chat_run parse (chat_init b rid rs) [Proceed parts])
       \<and> res (chat_run parse (chat_init b rid rs) [Proceed parts, TimeoutFired])
           = res (chat_run parse (chat_init b rid rs) [Proceed parts])
       \<and> chunks (res (chat_run parse (chat_init b rid rs) [Proceed parts]))
           = chunks rs @ [Sse (ModelInfo (fst (getCurrentModelCapabilities (model b)))
                (snd (getCurrentModelCapabilities (model b))) rid)]
       \<and> writableEnded (res (chat_run parse (chat_init b rid rs) [Proceed parts])) = writableEnded rs"
proof -
  let ?s = "chat_step parse (chat_init b rid rs) (Proceed parts)"
  have ph: "phase ?s = AwaitingUpstream" and hs: "headersSent (res ?s)"
    using assms
    by (auto simp: chat_init_def on_proceed_def Let_def write_event_def res_write_def)
  have r1: "res (chat_step parse ?s AxiosResolved) = res ?s" using ph by simp
  then have "headersSent (res (chat_step parse ?s AxiosResolved))" using hs by simp
  then have e: "res (chat_step parse (chat_step parse ?s AxiosResolved) (UpError m)) = res ?s"
    using error_handlers_silent(1) r1 by simp
  have t: "res (chat_step parse ?s TimeoutFired) = res ?s"
    using hs by (rule error_handlers_silent(2))
  have c: "chunks (res ?s) = chunks rs @ [Sse (ModelInfo (fst (getCurrentModelCapabilities (model b)))
                (snd (getCurrentModelCapabilities (model b))) rid)]"
    "writableEnded (res ?s) = writableEnded rs"
    using assms
    by (auto simp: chat_init_def on_proceed_def Let_def write_event_def res_write_def
        sse_headers_def setHeader_def)
  show ?thesis using e t c by simp
qed

theorem started_stream_gets_no_terminal_events_witness:
  "(truthy (message hello_body) \<or> has_files hello_body)
   \<and> chunks (res (chat_run sample_parse (chat_init hello_body ''r1'' new_response)
        [Proceed [], AxiosResolved, UpError ''reset'']))
       = [Sse (ModelInfo (Some ''Qwen2.5-72B'') (Some ''32K'') ''r1'')]
   \<and> writableEnded (res (chat_run sample_parse (chat_init hello_body ''r1'' new_response)
        [Proceed [], TimeoutFired])) = False"
proof -
  have h: "truthy (message hello_body) \<or> has_files hello_body"
    by (simp add: hello_body_def truthy_def)
  have cap: "getCurrentModelCapabilities (model hello_body) = (Some ''Qwen2.5-72B'', Some ''32K'')"
    by (simp add: hello_body_def getCurrentModelCapabilities_def)
  have n: "chunks new_response = []" "writableEnded new_response = False"
    by (simp_all add: new_response_def)
  show ?thesis
    using started_stream_gets_no_terminal_events [OF h, where parse = sample_parse
      and rid = "''r1''" and rs = new_response and parts = "[]" and m = "''reset''"] h
    by (simp only: cap n) simp
qed

section \<open>The chat stream: client disconnect\<close>

lemma clearTimeout_neq: "clearTimeout z \<noteq> Pending"
  by (cases z) (simp_all add: clearTimeout_def)

lemma clear_timer_not_pending: "timeoutId (clear_timer s) \<noteq> Some Pending"
  by (cases "timeoutId s") (simp_all add: clear_timer_def clearTimeout_neq)

lemma clear_timer_frame:
  "isClientConnected (clear_timer s) = isClientConnected s" "res (clear_timer s) = res s"
  "axiosResponse (clear_timer s) = axiosResponse s" "phase (clear_timer s) = phase s"
  by (simp_all add: clear_timer_def)

lemma destroy_upstream_frame:
  "isClientConnected (destroy_upstream s) = isClientConnected s" "res (destroy_upstream s) = res s"
  "timeoutId (destroy_upstream s) = timeoutId s" "phase (destroy_upstream s) = phase s"
  by (simp_all add: destroy_upstream_def)

lemma on_close_gone: "gone (on_close s)"
  by (simp add: gone_def on_close_def clear_timer_not_pending clear_timer_frame
      destroy_upstream_frame)

lemma on_close_res: "res (on_close s) = res s"
  by (simp add: on_close_def clear_timer_frame destroy_upstream_frame)

lemma gone_on_proceed:
  assumes "gone s"
  shows "gone (on_proceed parts s)"
    and "filter is_chunk (chunks (res (on_proceed parts s))) = filter is_chunk (chunks (res s))"
proof -
  have nc: "\<not> isClientConnected s" and tp: "timeoutId s \<noteq> Some Pending"
    using assms by (simp_all add: gone_def)
  show "gone (on_proceed parts s)"
    using nc tp
    by (simp add: on_proceed_def Let_def gone_def clear_timer_def clearTimeout_def)
  show "filter is_chunk (chunks (res (on_proceed parts s))) = filter is_chunk (chunks (res s))"
    using nc
    by (simp add: on_proceed_def Let_def clear_timer_def json_reply_def res_write_def res_end_def
        setHeader_def sse_headers_def)
qed

lemma gone_step:
  assumes "gone s"
  shows "gone (chat_step parse s e)
       \<and> filter is_chunk (chunks (res (chat_step parse s e))) = filter is_chunk (chunks (res s))"
proof -
  have nc: "\<not> isClientConnected s" and tp: "timeoutId s \<noteq> Some Pending"
    using assms by (simp_all add: gone_def)
  show ?thesis
  proof (cases e)
    case Close
    then show ?thesis by (simp add: on_close_gone on_close_res)
  next
    case Disconnect
    then show ?thesis using assms by simp
  next
    case (Proceed parts)
    then show ?thesis using assms gone_on_proceed [OF assms] by simp
  next
    case AxiosResolved
    then show ?thesis using nc tp by (simp add: gone_def)
  next
    case (AxiosRejected st)
    then show ?thesis using nc tp
      by (simp add: gone_def on_api_error_def emit_error_done_def clear_timer_not_pending
          clear_timer_frame)
  next
    case (UpData chunk)
    then show ?thesis using nc tp by (simp add: gone_def on_data_def destroy_upstream_frame)
  next
    case UpEnd
    then show ?thesis using nc tp
      by (simp add: gone_def on_end_def Let_def clear_timer_not_pending clear_timer_frame)
  next
    case (UpError m)
    then show ?thesis using nc tp
      by (simp add: gone_def on_stream_error_def emit_error_done_def clear_timer_not_pending
          clear_timer_frame)
  next
    case TimeoutFired
    then show ?thesis using nc tp by (simp add: gone_def)
  qed
qed

lemma gone_run:
  assumes "gone s"
  shows "gone (chat_run parse s es)
       \<and> filter is_chunk (chunks (res (chat_run parse s es))) = filter is_chunk (chunks (res s))"
  using assms
proof (induction es arbitrary: s)
  case Nil
  then show ?case by simp
next
  case (Cons e es)
  have st: "gone (chat_step parse s e)
       \<and> filter is_chunk (chunks (res (chat_step parse s e))) = filter is_chunk (chunks (res s))"
    using Cons.prems by (rule gone_step)
  then have g: "gone (chat_step parse s e)" by simp
  show ?case using Cons.IH [OF g] st by simp
qed

text \<open>
  When the upstream response arrives only after the client has gone, the \<open>close\<close> listener
  had no stream to destroy; the stream is destroyed when its first \<open>data\<close> event arrives.
\<close>

lemma late_stream_destroyed_on_data:
  assumes "phase s = Streaming" "\<not> isClientConnected s"
  shows "axiosResponse (chat_step parse s (UpData chunk))
       = map_option (\<lambda>u. u\<lparr>destroyed := True\<rparr>) (axiosResponse s)"
  using assms by (simp add: on_data_def destroy_upstream_def)

text \<open>The sample state \<open>pending_call\<close> is where an accepted request stands after its validation.\<close>

lemma pending_call_reached:
  assumes "truthy (message b) \<or> has_files b"
  shows "chat_step parse (chat_init b ''r1'' new_response) (Proceed []) = pending_call b"
  using assms
  by (auto simp: chat_init_def on_proceed_def Let_def write_event_def pending_call_def)

text \<open>
  What the \<open>close\<close> listener does when it runs, in every state of a chat-stream request:
  the request is marked disconnected, the upstream stream held at that moment (there is
  one once the upstream call has resolved) is destroyed, and the timer, if armed, is
  cleared. In every continuation of the run the chunk events written to the client are
  those written before, the request stays disconnected and no timer is pending; and a
  stream that the upstream call delivers afterwards is destroyed when a \<open>data\<close> event
  of it arrives.
\<close>

lemma close_listener_effect:
  "\<not> isClientConnected (chat_step parse s Close)
   \<and> axiosResponse (chat_step parse s Close)
       = map_option (\<lambda>u. u\<lparr>destroyed := True\<rparr>) (axiosResponse s)
   \<and> timeoutId (chat_step parse s Close) = map_option clearTimeout (timeoutId s)
   \<and> timeoutId (chat_step parse s Close) \<noteq> Some Pending
   \<and> filter is_chunk (chunks (res (chat_run parse (chat_step parse s Close) es)))
       = filter is_chunk (chunks (res s))
   \<and> \<not> isClientConnected (chat_run parse (chat_step parse s Close) es)
   \<and> timeoutId (chat_run parse (chat_step parse s Close) es) \<noteq> Some Pending
   \<and> (phase (chat_run parse (chat_step parse s Close) es) = Streaming \<longrightarrow>
        axiosResponse (chat_step parse (chat_run parse (chat_step parse s Close) es) (UpData chunk))
          = map_option (\<lambda>u. u\<lparr>destroyed := True\<rparr>)
              (axiosResponse (chat_run parse (chat_step parse s Close) es)))"
proof -
  have g: "gone (chat_step parse s Close)" by (simp add: on_close_gone)
  have r: "gone (chat_run parse (chat_step parse s Close) es)
       \<and> filter is_chunk (chunks (res (chat_run parse (chat_step parse s Close) es)))
           = filter is_chunk (chunks (res (chat_step parse s Close)))"
    using g by (rule gone_run)
  have c: "axiosResponse (chat_step parse s Close)
             = map_option (\<lambda>u. u\<lparr>destroyed := True\<rparr>) (axiosResponse s)"
          "timeoutId (chat_step parse s Close) = map_option clearTimeout (timeoutId s)"
    by (simp_all add: on_close_def clear_timer_def destroy_upstream_def)
  have l: "phase (chat_run parse (chat_step parse s Close) es) = Streaming \<longrightarrow>
        axiosResponse (chat_step parse (chat_run parse (chat_step parse s Close) es) (UpData chunk))
          = map_option (\<lambda>u. u\<lparr>destroyed := True\<rparr>)
              (axiosResponse (chat_run parse (chat_step parse s Close) es))"
    using r late_stream_destroyed_on_data by (simp add: gone_def)
  show ?thesis
    using g r c l by (simp add: gone_def on_close_res)
qed

text \<open>
  The request \<open>hi\<close> whose listener runs while the upstream call is pending: when the
  call resolves the handler is in its streaming phase, nothing has been streamed to the
  client, and the first \<open>data\<close> event destroys the stream.
\<close>

lemma close_listener_effect_example:
  "phase (chat_run sample_parse (chat_step sample_parse (pending_call hello_body) Close)
       [AxiosResolved]) = Streaming
   \<and> axiosResponse (chat_step sample_parse
        (chat_run sample_parse (chat_step sample_parse (pending_call hello_body) Close)
           [AxiosResolved])
        (UpData (''data: A'' @ [CHR 0x0A]))) = Some \<lparr>destroyed = True\<rparr>
   \<and> filter is_chunk (chunks (res (chat_run sample_parse
        (chat_step sample_parse (pending_call hello_body) Close) [AxiosResolved]))) = []
   \<and> timeoutId (chat_step sample_parse (pending_call hello_body) Close) = Some Cleared"
proof -
  have ph: "phase (chat_run sample_parse (chat_step sample_parse (pending_call hello_body) Close)
       [AxiosResolved]) = Streaming"
    by (simp add: pending_call_def on_close_def clear_timer_def destroy_upstream_def)
  have ax: "axiosResponse (chat_run sample_parse
        (chat_step sample_parse (pending_call hello_body) Close) [AxiosResolved])
      = Some \<lparr>destroyed = False\<rparr>"
    by (simp add: pending_call_def on_close_def clear_timer_def destroy_upstream_def)
  have ch: "filter is_chunk (chunks (res (pending_call hello_body))) = []"
    by (simp add: pending_call_def res_write_def sse_headers_def setHeader_def new_response_def)
  have tm: "map_option clearTimeout (timeoutId (pending_call hello_body)) = Some Cleared"
    by (simp add: pending_call_def clearTimeout_def)
  show ?thesis
    using close_listener_effect [where parse = sample_parse and s = "pending_call hello_body"
      and es = "[AxiosResolved]" and chunk = "''data: A'' @ [CHR 0x0A]"] ph
    by (simp only: ax ch tm) simp
qed

text \<open>
  C5. When the client of a chat-stream request disconnects before the upstream call has
  completed, the worker should destroy the upstream stream and clear the timer at that
  moment, and write no further chunk. The handler attempts this in the \<open>close\<close>
  listener of the request (lines 512 to 526, commented as listening for the client's
  disconnect and cancelling the API request) and misses it in two ways, shown here on the
  request \<open>hi\<close>.

  On Node 16 and later the listener does not run at a disconnect. The client disconnects
  after the upstream call has resolved: the upstream stream is not destroyed, the timer
  stays pending, the request still counts as connected, and the next \<open>data\<close> event of
  the upstream stream is written to the response as a chunk event.

  Where the listener does run at the disconnect (before Node 16), the client disconnects
  while the upstream call is pending: the call has been made, the listener holds no
  stream to destroy and nothing cancels the call, and when the call resolves the request
  holds a live upstream stream although its client is gone.
\<close>

theorem disconnect_leaves_upstream_running:
  "axiosResponse (chat_run sample_parse (chat_init hello_body ''r1'' new_response)
      [Proceed [], AxiosResolved, Disconnect, UpData (''data: A'' @ [CHR 0x0A])])
     = Some \<lparr>destroyed = False\<rparr>
   \<and> timeoutId (chat_run sample_parse (chat_init hello_body ''r1'' new_response)
      [Proceed [], AxiosResolved, Disconnect, UpData (''data: A'' @ [CHR 0x0A])]) = Some Pending
   \<and> isClientConnected (chat_run sample_parse (chat_init hello_body ''r1'' new_response)
      [Proceed [], AxiosResolved, Disconnect, UpData (''data: A'' @ [CHR 0x0A])])
   \<and> filter is_chunk (chunks (res (chat_run sample_parse (chat_init hello_body ''r1'' new_response)
      [Proceed [], AxiosResolved, Disconnect])))
     = []
   \<and> filter is_chunk (chunks (res (chat_run sample_parse (chat_init hello_body ''r1'' new_response)
      [Proceed [], AxiosResolved, Disconnect, UpData (''data: A'' @ [CHR 0x0A])])))
     = [Sse (Chunk ''Hello'' ''r1'')]
   \<and> length (upstreamCalls (chat_run sample_parse (chat_init hello_body ''r1'' new_response)
      [Proceed [], Close])) = 1
   \<and> axiosResponse (chat_run sample_parse (chat_init hello_body ''r1'' new_response)
      [Proceed [], Close]) = None
   \<and> \<not> isClientConnected (chat_run sample_parse (chat_init hello_body ''r1'' new_response)
      [Proceed [], Close, AxiosResolved])
   \<and> axiosResponse (chat_run sample_parse (chat_init hello_body ''r1'' new_response)
      [Proceed [], Close, AxiosResolved]) = Some \<lparr>destroyed = False\<rparr>"
proof -
  have t: "trim ''data: A'' = ''data: A''" "trim ''A'' = ''A''"
    by (simp_all add: trim_plain white_space_def startsWith_def endsWith_def)
  show ?thesis
    by (simp add: chat_init_def hello_body_def on_proceed_def Let_def truthy_def has_files_def
        write_event_def on_close_def clear_timer_def destroy_upstream_def clearTimeout_def
        on_data_def handle_line_def t startsWith_def sample_parse_def res_write_def
        sse_headers_def setHeader_def new_response_def getCurrentModelCapabilities_def)
qed

section \<open>The supervisor's replacements\<close>

lemma map_get_map_set: "map_get k (map_set k v ps) = Some v"
  by (induction ps) (auto simp: map_get_def)

text \<open>Whatever is forked under an id gets that id and the port \<open>basePort + id - 1\<close>.\<close>

lemma fork_keeps_identity:
  "worker_view wid (forkWorker newpid now wid st) = Some (wid, basePort st + int wid - 1, 0)"
  by (simp add: worker_view_def forkWorker_def map_get_map_set)

text \<open>
  So the \<open>exit\<close> listener's replacement has the same ordinal and port, and a restart
  count of 0 whatever the count of the worker that exited.
\<close>

lemma exit_listener_registers_zero_restarts:
  assumes "findWorkerIdByPid p st = Some wid" "wid \<noteq> 0"
  shows "worker_view wid (on_cluster_exit p newpid now st) = Some (wid, basePort st + int wid - 1, 0)"
  using assms by (simp add: on_cluster_exit_def fork_keeps_identity)

text \<open>
  C6. Two workers on base port 3001, with pids 100 and 101. Worker 1 is seen as
  (ordinal 1, port 3001, 0 restarts). After its process exits unexpectedly the replacement
  is seen as (1, 3001, 0): same ordinal and port, and a restart count that did not move.
  After a graceful restart that had to kill the worker the replacement is seen as
  (1, 3001, 1); when that replacement then exits unexpectedly, its replacement is seen as
  (1, 3001, 0). After a graceful restart in which the worker exits in time, two processes
  with ordinal 1 and port 3001 have been forked (pids 102 and 103), for a count of 1.
\<close>

theorem crash_replacement_resets_restarts:
  "worker_view 1 two_workers = Some (1, 3001, 0)
   \<and> worker_view 1 (worker_exit 100 102 5000 two_workers) = Some (1, 3001, 0)
   \<and> worker_view 1 (restart_forced 1 102 103 5000 two_workers) = Some (1, 3001, 1)
   \<and> worker_view 1 (worker_exit 102 104 9000 (restart_forced 1 102 103 5000 two_workers))
       = Some (1, 3001, 0)
   \<and> worker_view 1 (restart_voluntary 1 102 103 5000 two_workers) = Some (1, 3001, 1)
   \<and> procs (restart_voluntary 1 102 103 5000 two_workers) 102
       = Some \<lparr>env_WORKER_ID = 1, env_WORKER_PORT = 3001, dead = False\<rparr>
   \<and> procs (restart_voluntary 1 102 103 5000 two_workers) 103
       = Some \<lparr>env_WORKER_ID = 1, env_WORKER_PORT = 3001, dead = False\<rparr>"
  by (simp add: two_workers_def pm_init_def forkWorker_def worker_view_def map_get_def
      worker_exit_def on_cluster_exit_def process_exited_def findWorkerIdByPid_def map_delete_def
      restart_forced_def restart_voluntary_def restart_begin_def grace_expired_def
      restart_finish_def Let_def)

section \<open>Shutdown order\<close>

lemma timeline_workers:
  "concat (map (timeline t \<circ> (\<lambda>w. Do (SigtermWorker w))) ws) = map (\<lambda>w. (t, SigtermWorker w)) ws"
  by (induction ws) simp_all

text \<open>
  C7, as the code has it. On a termination signal at time \<open>t\<close>, the supervisor of
  \<open>server/start.js\<close> signals the balancer at \<open>t\<close> (unless it had signalled it before),
  every worker at \<open>t + 1000\<close>, and exits at \<open>t + 4000\<close>; the supervisor of
  \<open>start-cluster.js\<close> signals every worker at \<open>t\<close> and, at \<open>t + 5000\<close>, signals the
  balancer and exits.
\<close>

theorem shutdown_timelines:
  "timeline_of t (start_js_shutdown False ws)
     = (t, SigtermBalancer) # map (\<lambda>w. (t + 1000, SigtermWorker w)) ws @ [(t + 4000, ExitProcess 0)]
   \<and> timeline_of t (start_js_shutdown True ws)
     = map (\<lambda>w. (t + 1000, SigtermWorker w)) ws @ [(t + 4000, ExitProcess 0)]
   \<and> timeline_of t (start_cluster_shutdown ws)
     = map (\<lambda>w. (t, SigtermWorker w)) ws @ [(t + 5000, SigtermBalancer), (t + 5000, ExitProcess 0)]"
  by (simp add: timeline_of_def start_js_shutdown_def start_cluster_shutdown_def timeline_workers)

text \<open>
  C7 as stated fails for \<open>start-cluster.js\<close>: with four workers the balancer is the last
  process to be signalled, 5000 ms after the workers.
\<close>

theorem cluster_script_signals_workers_first:
  "timeline_of 0 (start_cluster_shutdown [1, 2, 3, 4])
     = [(0, SigtermWorker 1), (0, SigtermWorker 2), (0, SigtermWorker 3), (0, SigtermWorker 4),
        (5000, SigtermBalancer), (5000, ExitProcess 0)]"
  by (simp add: timeline_of_def start_cluster_shutdown_def)

section \<open>Conversation history\<close>

lemma no_system_no_consecutive:
  "filter (\<lambda>m. role m = System) xs = [] \<Longrightarrow> \<not> consecutive_system (x # xs)"
proof (induction xs arbitrary: x)
  case Nil
  then show ?case by simp
next
  case (Cons y ys)
  then have "role y \<noteq> System" and "filter (\<lambda>m. role m = System) ys = []"
    by (auto split: if_splits)
  then show ?case using Cons.IH [of y] by simp
qed

lemma single_first_no_consecutive:
  assumes "single_system_first p h"
  shows "\<not> consecutive_system h"
proof -
  obtain x xs where h: "h = x # xs" using assms by (cases h) (auto simp: single_system_first_def)
  then show ?thesis using assms no_system_no_consecutive [of xs x]
    by (simp add: single_system_first_def)
qed

lemma single_first_snoc:
  assumes "single_system_first p h" "role m \<noteq> System"
  shows "single_system_first p (h @ [m])"
  using assms by (cases h) (auto simp: single_system_first_def)

lemma count_snoc:
  "role m \<noteq> System \<Longrightarrow> non_system_count (h @ [m]) = non_system_count h + 1"
  by (simp add: non_system_count_def)

lemma single_first_initial: "single_system_first p [system_entry p]"
  by (simp add: single_system_first_def)

lemma history_ok_initial: "0 \<le> M \<Longrightarrow> history_ok M p [system_entry p]"
  by (simp add: history_ok_def single_system_first_def non_system_count_def system_entry_def)

lemma js_slice_length: "0 < n \<Longrightarrow> int (length (js_slice (- n) xs)) \<le> n"
  by (auto simp: js_slice_def)

lemma js_slice_subset: "set (js_slice k xs) \<subseteq> set xs"
  by (auto simp: js_slice_def dest: in_set_dropD)

lemma find_system_first:
  assumes "single_system_first p h"
  shows "find (\<lambda>m. role m = System) h = Some (system_entry p)"
  using assms by (cases h) (auto simp: single_system_first_def system_entry_def)

lemma truncate_ok:
  assumes "0 < M" "single_system_first p h"
  shows "history_ok M p (truncateConversation M p h)"
proof -
  define rest where "rest = filter (\<lambda>m. role m \<noteq> System) h"
  define trimmed where "trimmed = js_slice (- (M * 2)) rest"
  have t: "truncateConversation M p h = system_entry p # trimmed"
    using find_system_first [OF assms(2)]
    by (simp add: truncateConversation_def Let_def rest_def trimmed_def)
  have mem: "\<forall>m \<in> set trimmed. role m \<noteq> System"
    using js_slice_subset [of "- (M * 2)" rest] by (auto simp: trimmed_def rest_def)
  have nosys: "filter (\<lambda>m. role m = System) trimmed = []"
    using mem by (simp add: filter_False)
  have all: "filter (\<lambda>m. role m \<noteq> System) trimmed = trimmed"
    using mem by (simp add: filter_True)
  have shape: "single_system_first p (system_entry p # trimmed)"
    using nosys by (simp add: single_system_first_def)
  have "0 < M * 2" using assms(1) by simp
  then have len: "int (length trimmed) \<le> M * 2"
    unfolding trimmed_def by (rule js_slice_length)
  have cnt: "non_system_count (system_entry p # trimmed) = length trimmed"
    using all by (simp add: non_system_count_def system_entry_def)
  have nc: "\<not> consecutive_system (system_entry p # trimmed)"
    using shape by (rule single_first_no_consecutive)
  show ?thesis
    unfolding t history_ok_def using shape nc len cnt by simp
qed

lemma pushUser_form: "\<exists>c. pushUserMessage h m fs = h @ [\<lparr>role = User, content = c\<rparr>]"
  by (simp add: pushUserMessage_def Let_def)

lemma pushAssistant_form:
  "pushAssistantMessage h t = h \<or> (\<exists>c. pushAssistantMessage h t = h @ [\<lparr>role = Assistant, content = c\<rparr>])"
  by (simp add: pushAssistantMessage_def Let_def)

lemma pushUser_ok:
  assumes "single_system_first p h"
  shows "single_system_first p (pushUserMessage h m fs)"
    and "\<not> consecutive_system (pushUserMessage h m fs)"
    and "non_system_count (pushUserMessage h m fs) = non_system_count h + 1"
proof -
  obtain c where c: "pushUserMessage h m fs = h @ [\<lparr>role = User, content = c\<rparr>]"
    using pushUser_form by blast
  show s: "single_system_first p (pushUserMessage h m fs)"
    unfolding c using assms by (rule single_first_snoc) simp
  show "\<not> consecutive_system (pushUserMessage h m fs)"
    using s by (rule single_first_no_consecutive)
  show "non_system_count (pushUserMessage h m fs) = non_system_count h + 1"
    unfolding c by (rule count_snoc) simp
qed

lemma pushAssistant_ok:
  assumes "single_system_first p h"
  shows "single_system_first p (pushAssistantMessage h t)"
    and "\<not> consecutive_system (pushAssistantMessage h t)"
    and "non_system_count (pushAssistantMessage h t) \<le> non_system_count h + 1"
proof -
  consider "pushAssistantMessage h t = h"
    | c where "pushAssistantMessage h t = h @ [\<lparr>role = Assistant, content = c\<rparr>]"
    using pushAssistant_form by blast
  then have "single_system_first p (pushAssistantMessage h t)
      \<and> non_system_count (pushAssistantMessage h t) \<le> non_system_count h + 1"
  proof cases
    case 1
    then show ?thesis using assms by simp
  next
    case 2
    have "single_system_first p (h @ [\<lparr>role = Assistant, content = c\<rparr>])"
      using assms by (rule single_first_snoc) simp
    moreover have "non_system_count (h @ [\<lparr>role = Assistant, content = c\<rparr>]) = non_system_count h + 1"
      by (rule count_snoc) simp
    ultimately show ?thesis unfolding 2 by simp
  qed
  then show s: "single_system_first p (pushAssistantMessage h t)"
    and "non_system_count (pushAssistantMessage h t) \<le> non_system_count h + 1"
    by simp_all
  show "\<not> consecutive_system (pushAssistantMessage h t)"
    using s by (rule single_first_no_consecutive)
qed

text \<open>
  C8, as the code has it, for a positive maximum \<open>M\<close>. A new or reset history is the system
  entry alone, within the bound. Truncation, and the completion of a stream (which appends
  the answer and stores the truncated history), give a history whose first element is the
  single system entry, without two neighbouring system entries, and with at most \<open>2 * M\<close>
  other entries. Appending a user turn or an assistant turn keeps the first two properties
  and adds at most one entry to the count; appending does not trim.
\<close>

theorem history_operations:
  assumes "0 < M" "single_system_first p h"
  shows "history_ok M p [system_entry p]
       \<and> (store uid = None \<longrightarrow>
            getConversation p uid store = ([system_entry p], store(uid \<mapsto> [system_entry p])))
       \<and> session_reset p uid store uid = Some [system_entry p]
       \<and> history_ok M p (truncateConversation M p h)
       \<and> (\<exists>h'. chat_end M p uid h t store uid = Some h' \<and> history_ok M p h')
       \<and> single_system_first p (pushUserMessage h m fs)
       \<and> \<not> consecutive_system (pushUserMessage h m fs)
       \<and> non_system_count (pushUserMessage h m fs) = non_system_count h + 1
       \<and> single_system_first p (pushAssistantMessage h t)
       \<and> \<not> consecutive_system (pushAssistantMessage h t)
       \<and> non_system_count (pushAssistantMessage h t) \<le> non_system_count h + 1"
proof -
  have i: "history_ok M p [system_entry p]" using assms(1) by (simp add: history_ok_initial)
  have g: "store uid = None \<longrightarrow>
            getConversation p uid store = ([system_entry p], store(uid \<mapsto> [system_entry p]))"
    by (simp add: getConversation_def)
  have r: "session_reset p uid store uid = Some [system_entry p]"
    by (simp add: session_reset_def)
  have tr: "history_ok M p (truncateConversation M p h)"
    using assms by (rule truncate_ok)
  have "history_ok M p (truncateConversation M p (pushAssistantMessage h t))"
    using assms(1) pushAssistant_ok(1) [OF assms(2)] by (rule truncate_ok)
  then have e: "\<exists>h'. chat_end M p uid h t store uid = Some h' \<and> history_ok M p h'"
    by (simp add: chat_end_def)
  show ?thesis
    using i g r tr e pushUser_ok [OF assms(2)] pushAssistant_ok [OF assms(2)] by blast
qed

theorem history_operations_witness:
  "(0::int) < 1 \<and> single_system_first ''be brief'' full_history
   \<and> history_ok 1 ''be brief'' (truncateConversation 1 ''be brief'' full_history)
   \<and> non_system_count (pushUserMessage full_history (Some ''more'') [])
        = non_system_count full_history + 1
   \<and> single_system_first ''be brief'' (pushAssistantMessage full_history (Some ''sure''))"
proof -
  have h1: "(0::int) < 1" by simp
  have h2: "single_system_first ''be brief'' full_history"
    by (simp add: single_system_first_def full_history_def system_entry_def)
  show ?thesis
    using history_operations [OF h1 h2, where m = "Some ''more''" and fs = "[]"
      and t = "Some ''sure''"] h1 h2
    by blast
qed

text \<open>
  C8 as stated fails for the appending of a user turn. With a maximum of one turn, a
  history of the system entry, one user turn and one assistant turn is within the bound
  of two; the chat handler stores it with the new user turn appended, three entries
  beside the system entry.
\<close>

theorem append_exceeds_bound:
  "history_ok 1 ''be brief'' full_history
   \<and> \<not> history_ok 1 ''be brief'' (pushUserMessage full_history (Some ''more'') [])
   \<and> snd (chat_begin 1 ''be brief'' ''u'' (Some ''more'') [] [''u'' \<mapsto> full_history]) ''u''
       = Some (full_history @ [\<lparr>role = User, content = ''more''\<rparr>])"
  by (simp add: history_ok_def single_system_first_def full_history_def system_entry_def
      non_system_count_def pushUserMessage_def chat_begin_def getConversation_def Let_def
      or_else_def truthy_def trim_plain white_space_def startsWith_def endsWith_def)

end
